theory Spec2Isabelle
  imports Main "HOL-Library.Word"
begin

section \<open>JavaScript strings\<close>

text \<open>
  A JavaScript string is a sequence of 16-bit code units. String literals of the source
  are ASCII and are written \<open>js ''...''\<close>.
\<close>

type_synonym jsstring = "16 word list"

definition js :: "string \<Rightarrow> jsstring" where
  "js s = map of_char s"

datatype js_error = URIError | TypeError

definition startsWith :: "jsstring \<Rightarrow> jsstring \<Rightarrow> bool" where
  \<comment> \<open>\<open>s.startsWith(p)\<close>\<close>
  "startsWith s p = (take (length p) s = p)"

definition slice :: "jsstring \<Rightarrow> nat \<Rightarrow> jsstring" where
  \<comment> \<open>\<open>s.slice(n)\<close> for a non-negative \<open>n\<close>\<close>
  "slice s n = drop n s"

section \<open>The built-in URI component codec\<close>

text \<open>
  \<open>encodeURIComponent\<close> and \<open>decodeURIComponent\<close> as ECMA-262 defines them (the abstract
  operations Encode and Decode). Both throw a URIError; the model returns it as \<open>Inl\<close>.
\<close>

definition isLeadSurrogate :: "16 word \<Rightarrow> bool" where
  "isLeadSurrogate c = (0xD800 \<le> unat c \<and> unat c \<le> 0xDBFF)"

definition isTrailSurrogate :: "16 word \<Rightarrow> bool" where
  "isTrailSurrogate c = (0xDC00 \<le> unat c \<and> unat c \<le> 0xDFFF)"

definition surrogatePairToCodePoint :: "16 word \<Rightarrow> 16 word \<Rightarrow> nat" where
  "surrogatePairToCodePoint hi lo = (unat hi - 0xD800) * 0x400 + (unat lo - 0xDC00) + 0x10000"

definition utf16EncodeCodePoint :: "nat \<Rightarrow> jsstring" where
  "utf16EncodeCodePoint cp =
     (if cp < 0x10000 then [of_nat cp]
      else [of_nat ((cp - 0x10000) div 0x400 + 0xD800), of_nat ((cp - 0x10000) mod 0x400 + 0xDC00)])"

definition uriUnescaped :: "16 word \<Rightarrow> bool" where
  \<comment> \<open>ASCII letters, decimal digits and \<open>- _ . ! ~ * ' ( )\<close>\<close>
  "uriUnescaped c =
     (let n = unat c in
      (0x41 \<le> n \<and> n \<le> 0x5A) \<or> (0x61 \<le> n \<and> n \<le> 0x7A) \<or> (0x30 \<le> n \<and> n \<le> 0x39) \<or>
      n \<in> {0x2D, 0x5F, 0x2E, 0x21, 0x7E, 0x2A, 0x27, 0x28, 0x29})"

definition utf8Encode :: "nat \<Rightarrow> nat list" where
  "utf8Encode cp =
     (if cp < 0x80 then [cp]
      else if cp < 0x800 then [0xC0 + cp div 0x40, 0x80 + cp mod 0x40]
      else if cp < 0x10000 then
        [0xE0 + cp div 0x1000, 0x80 + (cp div 0x40) mod 0x40, 0x80 + cp mod 0x40]
      else
        [0xF0 + cp div 0x40000, 0x80 + (cp div 0x1000) mod 0x40,
         0x80 + (cp div 0x40) mod 0x40, 0x80 + cp mod 0x40])"

definition hexDigit :: "nat \<Rightarrow> 16 word" where
  \<comment> \<open>upper-case hexadecimal digit of a value below 16\<close>
  "hexDigit d = (if d < 10 then of_nat (0x30 + d) else of_nat (0x41 + (d - 10)))"

definition percentEscape :: "nat \<Rightarrow> jsstring" where
  "percentEscape b = [0x25, hexDigit (b div 16), hexDigit (b mod 16)]"

definition orThrow :: "(jsstring \<Rightarrow> jsstring) \<Rightarrow> js_error + jsstring \<Rightarrow> js_error + jsstring" where
  \<comment> \<open>continue with the value of a computation unless it threw\<close>
  "orThrow f r = (case r of Inl e \<Rightarrow> Inl e | Inr s \<Rightarrow> Inr (f s))"

fun encodeURIComponent :: "jsstring \<Rightarrow> js_error + jsstring" where
  "encodeURIComponent [] = Inr []"
| "encodeURIComponent (c # cs) =
     (if uriUnescaped c then orThrow ((#) c) (encodeURIComponent cs)
      else if isTrailSurrogate c then Inl URIError
      else if isLeadSurrogate c then
        (case cs of
           [] \<Rightarrow> Inl URIError
         | d # ds \<Rightarrow>
             if isTrailSurrogate d
             then orThrow ((@) (concat (map percentEscape (utf8Encode (surrogatePairToCodePoint c d)))))
                    (encodeURIComponent ds)
             else Inl URIError)
      else orThrow ((@) (concat (map percentEscape (utf8Encode (unat c))))) (encodeURIComponent cs))"

definition hexValue :: "16 word \<Rightarrow> nat option" where
  "hexValue c =
     (let n = unat c in
      if 0x30 \<le> n \<and> n \<le> 0x39 then Some (n - 0x30)
      else if 0x41 \<le> n \<and> n \<le> 0x46 then Some (n - 0x41 + 10)
      else if 0x61 \<le> n \<and> n \<le> 0x66 then Some (n - 0x61 + 10)
      else None)"

definition parseHexOctet :: "16 word \<Rightarrow> 16 word \<Rightarrow> nat option" where
  "parseHexOctet h l =
     (case hexValue h of None \<Rightarrow> None
      | Some a \<Rightarrow> (case hexValue l of None \<Rightarrow> None | Some b \<Rightarrow> Some (16 * a + b)))"

fun continuationOctets :: "nat \<Rightarrow> jsstring \<Rightarrow> nat list option" where
  \<comment> \<open>the \<open>k\<close> escapes \<open>%XX\<close> that must follow the first octet of a multi-octet sequence\<close>
  "continuationOctets 0 r = Some []"
| "continuationOctets (Suc k) (p # h # l # r) =
     (if p = 0x25 then
        (case parseHexOctet h l of None \<Rightarrow> None
         | Some b \<Rightarrow> map_option ((#) b) (continuationOctets k r))
      else None)"
| "continuationOctets (Suc k) _ = None"

definition isContinuation :: "nat \<Rightarrow> bool" where
  "isContinuation b = (0x80 \<le> b \<and> b < 0xC0)"

definition utf8Decode :: "nat list \<Rightarrow> nat option" where
  \<comment> \<open>the code point of a well-formed UTF-8 sequence of two to four octets: continuation
      octets in range, shortest form, no surrogate, at most U+10FFFF\<close>
  "utf8Decode bs =
     (case bs of
        [b0, b1] \<Rightarrow>
          (let v = (b0 mod 0x20) * 0x40 + b1 mod 0x40
           in if isContinuation b1 \<and> 0x80 \<le> v then Some v else None)
      | [b0, b1, b2] \<Rightarrow>
          (let v = (b0 mod 0x10) * 0x1000 + (b1 mod 0x40) * 0x40 + b2 mod 0x40
           in if isContinuation b1 \<and> isContinuation b2 \<and> 0x800 \<le> v \<and> \<not> (0xD800 \<le> v \<and> v \<le> 0xDFFF)
              then Some v else None)
      | [b0, b1, b2, b3] \<Rightarrow>
          (let v = (b0 mod 8) * 0x40000 + (b1 mod 0x40) * 0x1000 + (b2 mod 0x40) * 0x40 + b3 mod 0x40
           in if isContinuation b1 \<and> isContinuation b2 \<and> isContinuation b3 \<and> 0x10000 \<le> v \<and> v \<le> 0x10FFFF
              then Some v else None)
      | _ \<Rightarrow> None)"

definition decodeEscape :: "jsstring \<Rightarrow> js_error + (jsstring \<times> nat)" where
  \<comment> \<open>for the code units \<open>cs\<close> after a \<open>%\<close>: the code units the escape sequence stands for,
      and how many code units of \<open>cs\<close> it spans\<close>
  "decodeEscape cs =
     (case cs of
        h # l # r \<Rightarrow>
          (case parseHexOctet h l of
             None \<Rightarrow> Inl URIError
           | Some b \<Rightarrow>
               if b < 0x80 then Inr ([of_nat b], 2)
               else if b < 0xC0 \<or> 0xF8 \<le> b then Inl URIError
               else
                 (let n = (if b < 0xE0 then 2 else if b < 0xF0 then 3 else 4) in
                  case continuationOctets (n - 1) r of
                    None \<Rightarrow> Inl URIError
                  | Some bs \<Rightarrow>
                      (case utf8Decode (b # bs) of
                         None \<Rightarrow> Inl URIError
                       | Some v \<Rightarrow> Inr (utf16EncodeCodePoint v, 2 + 3 * (n - 1)))))
      | _ \<Rightarrow> Inl URIError)"

fun decodeURIComponent :: "jsstring \<Rightarrow> js_error + jsstring" where
  "decodeURIComponent [] = Inr []"
| "decodeURIComponent (c # cs) =
     (if c \<noteq> 0x25 then orThrow ((#) c) (decodeURIComponent cs)
      else
        (case decodeEscape cs of
           Inl e \<Rightarrow> Inl e
         | Inr (s, k) \<Rightarrow> orThrow ((@) s) (decodeURIComponent (drop k cs))))"


fun wellFormed :: "jsstring \<Rightarrow> bool" where
  \<comment> \<open>no unpaired surrogate: the strings that are sequences of Unicode scalar values\<close>
  "wellFormed [] = True"
| "wellFormed (c # cs) =
     (if isLeadSurrogate c then
        (case cs of [] \<Rightarrow> False | d # ds \<Rightarrow> isTrailSurrogate d \<and> wellFormed ds)
      else \<not> isTrailSurrogate c \<and> wellFormed cs)"

section \<open>The platform's URL class\<close>

text \<open>
  \<open>new URL(input)\<close> and \<open>new URL(input, base)\<close> belong to the platform, not to the repository.
  The model of the repository takes them as a parameter: \<open>U input base\<close> is the parsed
  URL, or \<open>None\<close> where the constructor throws a TypeError.
\<close>

record URL =
  href :: jsstring
  origin :: jsstring
  pathname :: jsstring
  search :: jsstring
  hash :: jsstring

type_synonym url_api = "jsstring \<Rightarrow> jsstring option \<Rightarrow> URL option"

section \<open>URL resolver and proxy address codec\<close>

definition ROUTE_PREFIX :: jsstring where
  "ROUTE_PREFIX = js ''/service/''"

definition encodeTarget :: "jsstring \<Rightarrow> js_error + jsstring" where
  "encodeTarget u = encodeURIComponent u"

definition toProxiedPath :: "jsstring \<Rightarrow> js_error + jsstring" where
  "toProxiedPath target = orThrow ((@) ROUTE_PREFIX) (encodeTarget target)"

definition resolveUrl :: "url_api \<Rightarrow> jsstring \<Rightarrow> jsstring \<Rightarrow> jsstring" where
  "resolveUrl U base rel = (case U rel (Some base) of Some u \<Rightarrow> href u | None \<Rightarrow> rel)"

section \<open>Header sets\<close>

text \<open>
  A \<open>Headers\<close> object maps header names, kept in lower case, to byte-string values
  (\<open>get\<close> answers \<open>null\<close> for a name that is absent).
\<close>

type_synonym headers = "string \<rightharpoonup> string"

definition lowerLatin1 :: "char \<Rightarrow> char" where
  \<comment> \<open>\<open>toLowerCase\<close> on a code unit below 256\<close>
  "lowerLatin1 c =
     (let n = (of_char c :: nat) in
      if (0x41 \<le> n \<and> n \<le> 0x5A) \<or> (0xC0 \<le> n \<and> n \<le> 0xDE \<and> n \<noteq> 0xD7)
      then char_of (n + 0x20) else c)"

definition toLowerCase :: "string \<Rightarrow> string" where
  "toLowerCase s = map lowerLatin1 s"

fun includesSub :: "string \<Rightarrow> string \<Rightarrow> bool" where
  \<comment> \<open>\<open>s.includes(p)\<close>\<close>
  "includesSub [] p = (p = [])"
| "includesSub (c # cs) p = (take (length p) (c # cs) = p \<or> includesSub cs p)"

definition canonicalize :: "char \<Rightarrow> nat" where
  \<comment> \<open>the code unit a case-insensitive (non-unicode) regular expression compares: the
      upper-case form when it is a single code unit and no non-ASCII unit becomes ASCII\<close>
  "canonicalize c =
     (let n = (of_char c :: nat) in
      if (0x61 \<le> n \<and> n \<le> 0x7A) \<or> (0xE0 \<le> n \<and> n \<le> 0xFE \<and> n \<noteq> 0xF7) then n - 0x20
      else if n = 0xB5 then 0x39C
      else if n = 0xFF then 0x178
      else n)"

fun testIgnoreCase :: "string \<Rightarrow> string \<Rightarrow> bool" where
  \<comment> \<open>\<open>/p/i.test(s)\<close> for a pattern \<open>p\<close> of literal characters\<close>
  "testIgnoreCase p [] = (p = [])"
| "testIgnoreCase p (c # cs) =
     (map canonicalize (take (length p) (c # cs)) = map canonicalize p \<or> testIgnoreCase p cs)"

definition sanitizeHeadersInPlace :: "headers \<Rightarrow> headers" where
  \<comment> \<open>worker.js\<close>
  "sanitizeHeadersInPlace h0 =
     (let h = h0(''content-security-policy'' := None);
          h = h(''content-security-policy-report-only'' := None);
          h = h(''x-frame-options'' := None);
          h = h(''access-control-allow-origin'' \<mapsto> ''*'');
          h = h(''access-control-allow-headers'' \<mapsto> ''*'');
          h = h(''access-control-allow-methods'' \<mapsto> ''GET,POST,PUT,PATCH,DELETE,OPTIONS'')
      in h)"

definition sanitizeHeaders :: "headers \<Rightarrow> bool \<Rightarrow> headers" where
  \<comment> \<open>the second variant of the worker (src/unnamed/part_000)\<close>
  "sanitizeHeaders hdrs contentTypeIsHtml =
     (let h = hdrs;
          h = (if h ''content-security-policy'' \<noteq> None
               then h(''content-security-policy'' := None) else h);
          h = (if h ''content-security-policy-report-only'' \<noteq> None
               then h(''content-security-policy-report-only'' := None) else h);
          h = h(''access-control-allow-origin'' \<mapsto> ''*'');
          h = h(''access-control-allow-headers'' \<mapsto> ''*'');
          h = h(''access-control-allow-methods'' \<mapsto> ''GET,POST,PUT,PATCH,DELETE,OPTIONS'');
          h = (if h ''x-frame-options'' \<noteq> None then h(''x-frame-options'' := None) else h);
          h = (if h ''x-content-type-options'' \<noteq> None
               then h(''x-content-type-options'' := None) else h)
      in if contentTypeIsHtml then
           (let ct = (case h ''content-type'' of
                        None \<Rightarrow> ''text/html; charset=utf-8''
                      | Some v \<Rightarrow> if v = [] then ''text/html; charset=utf-8'' else v)
            in if \<not> testIgnoreCase ''text/html'' ct
               then h(''content-type'' \<mapsto> ''text/html; charset=utf-8'') else h)
         else h)"


section \<open>Attribute and CSS rewriting\<close>

definition isWhiteSpace :: "16 word \<Rightarrow> bool" where
  \<comment> \<open>what \<open>trim\<close> strips and \<open>\s\<close> matches: WhiteSpace and LineTerminator code points\<close>
  "isWhiteSpace c =
     (let n = unat c in
      (0x09 \<le> n \<and> n \<le> 0x0D) \<or> (0x2000 \<le> n \<and> n \<le> 0x200A) \<or>
      n \<in> {0x20, 0xA0, 0x1680, 0x2028, 0x2029, 0x202F, 0x205F, 0x3000, 0xFEFF})"

definition trim :: "jsstring \<Rightarrow> jsstring" where
  "trim s = rev (dropWhile isWhiteSpace (rev (dropWhile isWhiteSpace s)))"

fun splitOn :: "16 word \<Rightarrow> jsstring \<Rightarrow> jsstring list" where
  \<comment> \<open>\<open>s.split(sep)\<close> for a separator of one code unit\<close>
  "splitOn sep [] = [[]]"
| "splitOn sep (c # cs) =
     (if c = sep then [] # splitOn sep cs
      else (case splitOn sep cs of [] \<Rightarrow> [[c]] | p # ps \<Rightarrow> (c # p) # ps))"

fun splitWhiteSpace :: "jsstring \<Rightarrow> jsstring list" where
  \<comment> \<open>\<open>s.split(/\s+/)\<close>: the pieces between maximal runs of white space\<close>
  "splitWhiteSpace [] = [[]]"
| "splitWhiteSpace (c # cs) =
     (if isWhiteSpace c then
        (case cs of
           d # _ \<Rightarrow> if isWhiteSpace d then splitWhiteSpace cs else [] # splitWhiteSpace cs
         | [] \<Rightarrow> [] # splitWhiteSpace cs)
      else (case splitWhiteSpace cs of [] \<Rightarrow> [[c]] | p # ps \<Rightarrow> (c # p) # ps))"

fun joinWith :: "jsstring \<Rightarrow> jsstring list \<Rightarrow> jsstring" where
  \<comment> \<open>\<open>parts.join(sep)\<close>\<close>
  "joinWith sep [] = []"
| "joinWith sep [p] = p"
| "joinWith sep (p # q # ps) = p @ sep @ joinWith sep (q # ps)"

fun mapThrowing :: "('a \<Rightarrow> js_error + jsstring) \<Rightarrow> 'a list \<Rightarrow> js_error + jsstring list" where
  \<comment> \<open>\<open>xs.map(f)\<close> for a callback that may throw: the first exception ends the loop\<close>
  "mapThrowing f [] = Inr []"
| "mapThrowing f (x # xs) =
     (case f x of
        Inl e \<Rightarrow> Inl e
      | Inr y \<Rightarrow> (case mapThrowing f xs of Inl e \<Rightarrow> Inl e | Inr ys \<Rightarrow> Inr (y # ys)))"

definition srcsetPart :: "url_api \<Rightarrow> jsstring \<Rightarrow> jsstring \<Rightarrow> js_error + jsstring" where
  \<comment> \<open>the callback of \<open>srcset.split(',').map(...)\<close>; \<open>[u, w]\<close> are the first two pieces,
      \<open>w\<close> undefined when there is one piece only\<close>
  "srcsetPart U targetOrigin part =
     (case splitWhiteSpace (trim part) of
        [] \<Rightarrow> orThrow id (toProxiedPath (resolveUrl U targetOrigin (js ''undefined'')))
      | u # rest \<Rightarrow>
          orThrow (\<lambda>p. p @ (case rest of [] \<Rightarrow> [] | w # _ \<Rightarrow> if w \<noteq> [] then js '' '' @ w else []))
            (toProxiedPath (resolveUrl U targetOrigin u)))"

definition srcsetHandler :: "url_api \<Rightarrow> jsstring \<Rightarrow> jsstring \<Rightarrow> js_error + jsstring" where
  \<comment> \<open>the value of the \<open>srcset\<close> attribute after the handler ran on value \<open>srcset\<close>\<close>
  "srcsetHandler U targetOrigin srcset =
     (if srcset = [] then Inr srcset
      else
        (case mapThrowing (srcsetPart U targetOrigin) (splitOn 0x2C srcset) of
           Inl e \<Rightarrow> Inl e
         | Inr parts \<Rightarrow> Inr (joinWith (js '', '') parts)))"

definition urlChar :: "16 word \<Rightarrow> bool" where
  \<comment> \<open>the class \<open>[^'")]\<close>\<close>
  "urlChar c = (c \<noteq> 0x27 \<and> c \<noteq> 0x22 \<and> c \<noteq> 0x29)"

definition openingQuote :: "jsstring \<Rightarrow> jsstring" where
  \<comment> \<open>what \<open>(['"]?)\<close> takes at the head of \<open>r\<close> in a match\<close>
  "openingQuote r = (case r of [] \<Rightarrow> [] | c # _ \<Rightarrow> if c = 0x27 \<or> c = 0x22 then [c] else [])"

definition matchUrl :: "jsstring \<Rightarrow> (jsstring \<times> jsstring \<times> jsstring) option" where
  \<comment> \<open>a match of \<open>url\((['"]?)([^'")]+)\1\)\<close> at the head of \<open>s\<close>: the matched text, the quote
      and the URL. The quote is taken when one is there (a match without it would have to
      start the URL with a quote), and the URL is the maximal run (a shorter run is followed
      by a URL character, not by the quote or the bracket).\<close>
  "matchUrl s =
     (if startsWith s (js ''url('') then
        (let r = drop 4 s;
             q = openingQuote r;
             r1 = drop (length q) r;
             u = takeWhile urlChar r1;
             r2 = dropWhile urlChar r1
         in if u \<noteq> [] \<and> startsWith r2 (q @ js '')'')
            then Some (js ''url('' @ q @ u @ q @ js '')'', q, u) else None)
      else None)"

function replaceUrl ::
  "(jsstring \<Rightarrow> jsstring \<Rightarrow> jsstring \<Rightarrow> js_error + jsstring) \<Rightarrow> jsstring \<Rightarrow> js_error + jsstring" where
  \<comment> \<open>\<open>s.replace(/url\((['"]?)([^'")]+)\1\)/g, f)\<close>: every match, scanning from the left and
      resuming after a match, is replaced by what the callback returns\<close>
  "replaceUrl f [] = Inr []"
| "replaceUrl f (c # cs) =
     (case matchUrl (c # cs) of
        None \<Rightarrow> orThrow ((#) c) (replaceUrl f cs)
      | Some (m, q, u) \<Rightarrow>
          (case f m q u of
             Inl e \<Rightarrow> Inl e
           | Inr r \<Rightarrow> orThrow ((@) r) (replaceUrl f (drop (length m - 1) cs))))"
  by pat_completeness auto

termination
  by (relation "measure (\<lambda>(f, s). length s)") auto

definition urlReplacer :: "url_api \<Rightarrow> jsstring \<Rightarrow> jsstring \<Rightarrow> jsstring \<Rightarrow> jsstring \<Rightarrow> js_error + jsstring" where
  \<comment> \<open>the callback of both \<open>replace\<close> calls\<close>
  "urlReplacer U targetOrigin m q u =
     (if startsWith u (js ''data:'') then Inr m
      else orThrow (\<lambda>p. js ''url('' @ p @ js '')'') (toProxiedPath (resolveUrl U targetOrigin u)))"


definition rewriteCssText :: "url_api \<Rightarrow> jsstring \<Rightarrow> jsstring \<Rightarrow> js_error + jsstring" where
  \<comment> \<open>the body \<open>rewriteCss\<close> answers with, from the text of the upstream body\<close>
  "rewriteCssText U targetOrigin cssText = replaceUrl (urlReplacer U targetOrigin) cssText"

subsection \<open>The texts the rewriters are written for\<close>

text \<open>
  The shape of a \<open>srcset\<close> value that the handler is written for: candidates separated by
  commas, each a URL, optionally followed by white space and one descriptor, with optional
  white space around it. A URL or descriptor is a non-empty run of code units that are
  neither white space nor a comma.
\<close>

definition blank :: "jsstring \<Rightarrow> bool" where
  "blank s = list_all isWhiteSpace s"

definition srcsetToken :: "jsstring \<Rightarrow> bool" where
  "srcsetToken t = (t \<noteq> [] \<and> list_all (\<lambda>c. \<not> isWhiteSpace c \<and> c \<noteq> 0x2C) t)"

record candidate =
  lead :: jsstring
  cand_url :: jsstring
  descriptor :: "(jsstring \<times> jsstring) option"  \<comment> \<open>the white space before it, and the descriptor\<close>
  trail :: jsstring

definition candidateText :: "candidate \<Rightarrow> jsstring" where
  "candidateText c =
     lead c @ cand_url c @ (case descriptor c of None \<Rightarrow> [] | Some (gap, d) \<Rightarrow> gap @ d) @ trail c"

definition candidateOk :: "candidate \<Rightarrow> bool" where
  "candidateOk c =
     (blank (lead c) \<and> blank (trail c) \<and> srcsetToken (cand_url c) \<and>
      (case descriptor c of None \<Rightarrow> True
       | Some (gap, d) \<Rightarrow> gap \<noteq> [] \<and> blank gap \<and> srcsetToken d))"

definition rewrittenCandidate :: "url_api \<Rightarrow> jsstring \<Rightarrow> candidate \<Rightarrow> js_error + jsstring" where
  \<comment> \<open>what the claim asks of one candidate: the route prefix and the percent-encoding of
      the candidate's URL as the URL class resolves it against the target origin (of the URL
      as it is, where the class rejects it), then a space and the descriptor if there is one\<close>
  "rewrittenCandidate U targetOrigin c =
     (case encodeURIComponent
             (case U (cand_url c) (Some targetOrigin) of
                Some resolved \<Rightarrow> href resolved
              | None \<Rightarrow> cand_url c) of
        Inl e \<Rightarrow> Inl e
      | Inr encoded \<Rightarrow>
          Inr (ROUTE_PREFIX @ encoded
               @ (case descriptor c of None \<Rightarrow> [] | Some (gap, d) \<Rightarrow> js '' '' @ d)))"








section \<open>Request dispatchers\<close>

text \<open>
  The three variants of the worker's \<open>fetch\<close> handler. The transport (the platform's
  \<open>fetch\<close>) is a parameter: it answers with an upstream response or throws, and the model
  keeps the text of what it threw. A dispatcher returns its outcome together with the list
  of outbound requests it issued.
\<close>

record 'b request =
  req_url :: jsstring
  req_method :: jsstring
  req_headers :: headers
  req_body :: 'b

record 'b init =
  init_method :: jsstring
  init_headers :: headers
  init_body :: "'b option"

record 'b upstream =
  up_status :: nat
  up_headers :: headers
  up_body :: 'b
  up_type :: jsstring
  up_text :: jsstring

datatype 'b body =
    Text jsstring
  | Stream 'b
  | Rewritten jsstring 'b  \<comment> \<open>\<open>htmlRewriter(origin).transform(upstream).body\<close>\<close>

record 'b response =
  status :: nat
  headers :: headers
  body :: "'b body"

datatype 'b outcome = Respond "'b response" | Throw js_error

type_synonym 'b transport = "jsstring \<Rightarrow> 'b init \<Rightarrow> jsstring + 'b upstream"

type_synonym 'b run = "'b outcome \<times> (jsstring \<times> 'b init) list"

definition textResponse :: "jsstring \<Rightarrow> nat \<Rightarrow> 'b response" where
  \<comment> \<open>\<open>new Response(text, { status })\<close>: a string body is served as plain text\<close>
  "textResponse t st =
     \<lparr>status = st, headers = [''content-type'' \<mapsto> ''text/plain;charset=UTF-8''], body = Text t\<rparr>"

definition makeInit :: "'b request \<Rightarrow> 'b init" where
  "makeInit request =
     \<lparr>init_method = req_method request, init_headers = req_headers request,
      init_body = (if req_method request \<noteq> js ''GET'' \<and> req_method request \<noteq> js ''HEAD''
                   then Some (req_body request) else None)\<rparr>"

definition decodeTarget :: "jsstring \<Rightarrow> 'b response + jsstring" where
  \<comment> \<open>the decode step of worker.js and of the second variant, from the path of the request;
      \<open>Inl\<close> is the response of an early return\<close>
  "decodeTarget path =
     (let encoded = slice path (length ROUTE_PREFIX)
      in if encoded = [] then Inl (textResponse (js ''Missing encoded URL'') 400)
         else (case decodeURIComponent encoded of
                 Inl _ \<Rightarrow> Inl (textResponse (js ''Bad encoded URL'') 400)
               | Inr target \<Rightarrow> Inr target))"

definition contentTypeOf :: "headers \<Rightarrow> string" where
  \<comment> \<open>\<open>headers.get('content-type') || ''\<close>\<close>
  "contentTypeOf h = (case h ''content-type'' of None \<Rightarrow> [] | Some v \<Rightarrow> v)"

definition nullBodyStatus :: "nat \<Rightarrow> bool" where
  \<comment> \<open>the null body statuses from 200 to 599: with one of them
      \<open>new Response(body, { status })\<close> throws a TypeError when it is given a body\<close>
  "nullBodyStatus st = (st \<in> {204, 205, 304})"

definition rewriteCss :: "url_api \<Rightarrow> 'b upstream \<Rightarrow> jsstring \<Rightarrow> 'b outcome" where
  "rewriteCss U resp targetOrigin =
     (case rewriteCssText U targetOrigin (up_text resp) of
        Inl e \<Rightarrow> Throw e
      | Inr rewritten \<Rightarrow>
          if nullBodyStatus (up_status resp) then Throw TypeError
          else
            Respond \<lparr>status = up_status resp,
                     headers = sanitizeHeadersInPlace
                       ((up_headers resp)(''content-type'' \<mapsto> ''text/css; charset=utf-8'')),
                     body = Text rewritten\<rparr>)"

definition worker_respond :: "url_api \<Rightarrow> jsstring \<Rightarrow> 'b upstream \<Rightarrow> 'b outcome" where
  \<comment> \<open>worker.js, after the upstream fetch returned\<close>
  "worker_respond U target upstream =
     (let lowerCT = toLowerCase (contentTypeOf (up_headers upstream));
          hs = sanitizeHeadersInPlace (up_headers upstream)
      in if includesSub lowerCT ''text/html'' then
           (case U target None of
              None \<Rightarrow> Throw TypeError
            | Some t \<Rightarrow>
                Respond \<lparr>status = up_status upstream,
                         headers = hs(''content-type'' \<mapsto> ''text/html; charset=utf-8''),
                         body = Rewritten (href t) (up_body upstream)\<rparr>)
         else if includesSub lowerCT ''text/css'' then
           (case U target None of
              None \<Rightarrow> Throw TypeError
            | Some t \<Rightarrow> rewriteCss U upstream (href t))
         else Respond \<lparr>status = up_status upstream, headers = hs, body = Stream (up_body upstream)\<rparr>)"

definition worker_fetch :: "url_api \<Rightarrow> 'b transport \<Rightarrow> 'b request \<Rightarrow> 'b run" where
  \<comment> \<open>worker.js\<close>
  "worker_fetch U transport request =
     (case U (req_url request) None of
        None \<Rightarrow> (Throw TypeError, [])
      | Some url \<Rightarrow>
          if \<not> startsWith (pathname url) ROUTE_PREFIX then
            (Respond (textResponse (js ''Boat Proxy Worker ready. Use /service/<encodedURL>'') 200), [])
          else
            (case decodeTarget (pathname url) of
               Inl early \<Rightarrow> (Respond early, [])
             | Inr target \<Rightarrow>
                 if startsWith target (origin url) then
                   (Respond (textResponse (js ''Refusing to proxy worker origin'') 400), [])
                 else
                   (let init = makeInit request in
                    case transport target init of
                      Inl err \<Rightarrow>
                        (Respond (textResponse (js ''Upstream fetch error: '' @ err) 502),
                         [(target, init)])
                    | Inr upstream \<Rightarrow> (worker_respond U target upstream, [(target, init)]))))"

definition WORKER_BASE :: jsstring where
  "WORKER_BASE = []"

definition part0_respond :: "url_api \<Rightarrow> jsstring \<Rightarrow> 'b upstream \<Rightarrow> 'b outcome" where
  \<comment> \<open>the second variant, after the upstream fetch returned\<close>
  "part0_respond U target resp =
     (if up_type resp = js ''opaque'' then
        Respond (textResponse (js ''Opaque upstream response; try a different site'') 502)
      else
        (let isHtml = includesSub (toLowerCase (contentTypeOf (up_headers resp))) ''text/html'';
             safeHeaders = sanitizeHeaders (up_headers resp) isHtml
         in if isHtml then
              (case U target None of
                 None \<Rightarrow> Throw TypeError
               | Some t \<Rightarrow>
                   Respond \<lparr>status = up_status resp, headers = safeHeaders,
                            body = Rewritten (href t) (up_body resp)\<rparr>)
            else Respond \<lparr>status = up_status resp, headers = safeHeaders,
                          body = Stream (up_body resp)\<rparr>))"

definition part0_fetch :: "url_api \<Rightarrow> 'b transport \<Rightarrow> 'b request \<Rightarrow> 'b run" where
  \<comment> \<open>the second variant of the worker (src/unnamed/part_000)\<close>
  "part0_fetch U transport request =
     (case U (req_url request) None of
        None \<Rightarrow> (Throw TypeError, [])
      | Some url \<Rightarrow>
          if pathname url = js ''/'' \<or> pathname url = WORKER_BASE then
            (Respond (textResponse (js ''Ultraviolet-style Worker: use /service/<encodedURL>'') 200), [])
          else if \<not> startsWith (pathname url) ROUTE_PREFIX then
            (Respond (textResponse (js ''Not found. Use /service/<encodedURL>'') 404), [])
          else
            (case decodeTarget (pathname url) of
               Inl early \<Rightarrow> (Respond early, [])
             | Inr target \<Rightarrow>
                 (let init = makeInit request in
                  if startsWith target (origin url) then
                    (Respond (textResponse (js ''Refusing to proxy this origin'') 400), [])
                  else
                    (case transport target init of
                       Inl err \<Rightarrow>
                         (Respond (textResponse (js ''Upstream fetch error: '' @ err) 502),
                          [(target, init)])
                     | Inr resp \<Rightarrow> (part0_respond U target resp, [(target, init)])))))"

fun replaceFirst :: "jsstring \<Rightarrow> jsstring \<Rightarrow> jsstring \<Rightarrow> jsstring" where
  \<comment> \<open>\<open>s.replace(pat, rep)\<close> for a string pattern: the first occurrence only\<close>
  "replaceFirst pat rep [] = (if pat = [] then rep else [])"
| "replaceFirst pat rep (c # cs) =
     (if startsWith (c # cs) pat then rep @ drop (length pat) (c # cs)
      else c # replaceFirst pat rep cs)"

definition index_fetch :: "url_api \<Rightarrow> 'b transport \<Rightarrow> 'b request \<Rightarrow> 'b run" where
  \<comment> \<open>index.js; its \<open>decodeURIComponent\<close> stands outside the \<open>try\<close>\<close>
  "index_fetch U transport request =
     (case U (req_url request) None of
        None \<Rightarrow> (Throw TypeError, [])
      | Some url \<Rightarrow>
          if startsWith (pathname url) (js ''/service/'') then
            (case decodeURIComponent (replaceFirst (js ''/service/'') [] (pathname url)) of
               Inl e \<Rightarrow> (Throw e, [])
             | Inr target \<Rightarrow>
                 (let init = makeInit request in
                  case transport target init of
                    Inl err \<Rightarrow>
                      (Respond (textResponse (js ''Error fetching target: '' @ err) 500),
                       [(target, init)])
                  | Inr resp \<Rightarrow>
                      (Respond \<lparr>status = up_status resp, headers = up_headers resp,
                                body = Stream (up_body resp)\<rparr>,
                       [(target, init)])))
          else
            (Respond (textResponse (js ''Ultraviolet Worker running. Use /service/<url>'') 200), []))"

section \<open>A fragment of the URL standard\<close>

text \<open>
  The WHATWG URL parser and serializer on a fragment of their inputs: absolute \<open>http\<close> and
  \<open>https\<close> URLs of the shape \<open>scheme://host[:port][/path][?query][#fragment]\<close>, and
  references without a scheme (scheme-relative, path-absolute, path-relative, query only,
  fragment only, empty) resolved against such a URL as base. The host is a plain ASCII
  domain; path, query and fragment hold only characters that the parser copies unchanged.
  On this fragment the scheme and the host are lower-cased, a default port is dropped, an
  empty path becomes \<open>/\<close>, and dot segments are resolved.

  Everything else (other schemes, \<open>http:\<close> or \<open>https:\<close> not followed by \<open>//\<close>, credentials, IP
  addresses, backslashes, characters that the parser strips or percent-encodes) is outside
  the fragment, and \<open>simpleURL\<close> answers \<open>None\<close> there. That is the platform's answer where the
  constructor throws (a reference without a scheme and without a base, a space in the
  host); elsewhere outside the fragment it is not, and the theorems below use \<open>simpleURL\<close>
  where it answers with a URL.
\<close>

definition isAsciiAlpha :: "16 word \<Rightarrow> bool" where
  "isAsciiAlpha c = (let n = unat c in (0x41 \<le> n \<and> n \<le> 0x5A) \<or> (0x61 \<le> n \<and> n \<le> 0x7A))"

definition isAsciiDigit :: "16 word \<Rightarrow> bool" where
  "isAsciiDigit c = (let n = unat c in 0x30 \<le> n \<and> n \<le> 0x39)"

definition asciiLower :: "16 word \<Rightarrow> 16 word" where
  "asciiLower c = (if 0x41 \<le> unat c \<and> unat c \<le> 0x5A then c + 0x20 else c)"

definition schemeChar :: "16 word \<Rightarrow> bool" where
  \<comment> \<open>ASCII letters and digits and \<open>+ - .\<close>\<close>
  "schemeChar c = (isAsciiAlpha c \<or> isAsciiDigit c \<or> c = 0x2B \<or> c = 0x2D \<or> c = 0x2E)"

definition hasScheme :: "jsstring \<Rightarrow> bool" where
  \<comment> \<open>scheme start state and scheme state: a letter, a run of scheme characters, a colon\<close>
  "hasScheme input =
     (case input of
        [] \<Rightarrow> False
      | c # _ \<Rightarrow> isAsciiAlpha c \<and> startsWith (dropWhile schemeChar input) (js '':''))"

definition pathChar :: "16 word \<Rightarrow> bool" where
  \<comment> \<open>ASCII letters and digits and \<open>- . _ ~ ! $ & ' ( ) * + , ; = : @ / %\<close>\<close>
  "pathChar c =
     (isAsciiAlpha c \<or> isAsciiDigit c \<or>
      unat c \<in> {0x2D, 0x2E, 0x5F, 0x7E, 0x21, 0x24, 0x26, 0x27, 0x28, 0x29, 0x2A, 0x2B, 0x2C,
                 0x3B, 0x3D, 0x3A, 0x40, 0x2F, 0x25})"

definition queryChar :: "16 word \<Rightarrow> bool" where
  \<comment> \<open>as \<open>pathChar\<close>, with \<open>?\<close> and without the apostrophe\<close>
  "queryChar c = ((pathChar c \<and> c \<noteq> 0x27) \<or> c = 0x3F)"

definition singleDot :: "jsstring \<Rightarrow> bool" where
  "singleDot seg = (map asciiLower seg \<in> {js ''.'', js ''%2e''})"

definition doubleDot :: "jsstring \<Rightarrow> bool" where
  "doubleDot seg = (map asciiLower seg \<in> {js ''..'', js ''.%2e'', js ''%2e.'', js ''%2e%2e''})"

definition validHost :: "jsstring \<Rightarrow> bool" where
  \<comment> \<open>lower-case labels of letters, digits and hyphens, none empty, none with the prefix
      \<open>xn--\<close>, the last one starting with a letter (so that it is not read as a number)\<close>
  "validHost h =
     (let labels = splitOn 0x2E h in
      list_all (\<lambda>l. l \<noteq> [] \<and> list_all (\<lambda>c. isAsciiAlpha c \<or> isAsciiDigit c \<or> c = 0x2D) l
                   \<and> \<not> startsWith l (js ''xn--'')) labels
      \<and> (case last labels of [] \<Rightarrow> False | c # _ \<Rightarrow> isAsciiAlpha c))"

definition portSuffix :: "jsstring \<Rightarrow> jsstring \<Rightarrow> jsstring option" where
  \<comment> \<open>what the serializer writes for the port: nothing when it is absent or the default
      of the scheme. Ports of one to four digits without a leading zero are in the fragment.\<close>
  "portSuffix scheme p =
     (case p of
        [] \<Rightarrow> Some []
      | c # ds \<Rightarrow>
          if ds \<noteq> [] \<and> length ds \<le> 4 \<and> list_all isAsciiDigit ds \<and> hd ds \<noteq> 0x30 then
            (if (scheme = js ''http'' \<and> ds = js ''80'') \<or> (scheme = js ''https'' \<and> ds = js ''443'')
             then Some [] else Some (c # ds))
          else None)"

record urlRecord =
  u_scheme :: jsstring
  u_host :: jsstring
  u_port :: jsstring  \<comment> \<open>as the serializer writes it: empty, or a colon and the digits\<close>
  u_path :: "jsstring list"
  u_query :: "jsstring option"
  u_fragment :: "jsstring option"

fun pathState :: "jsstring list \<Rightarrow> jsstring list \<Rightarrow> jsstring list" where
  \<comment> \<open>the path state on the segments of the input, the last one ended by the end of the
      path: a double-dot segment shortens the path, a single-dot segment is skipped, and
      either of them in last place leaves an empty segment\<close>
  "pathState path [] = path"
| "pathState path [seg] =
     (if doubleDot seg then butlast path @ [[]]
      else if singleDot seg then path @ [[]]
      else path @ [seg])"
| "pathState path (seg # segs) =
     (if doubleDot seg then pathState (butlast path) segs
      else if singleDot seg then pathState path segs
      else pathState (path @ [seg]) segs)"

definition notQF :: "16 word \<Rightarrow> bool" where
  "notQF c = (c \<noteq> 0x3F \<and> c \<noteq> 0x23)"

definition queryOf :: "jsstring \<Rightarrow> jsstring option" where
  \<comment> \<open>the query in the input from its first \<open>?\<close> or \<open>#\<close> on\<close>
  "queryOf r = (if startsWith r (js ''?'') then Some (takeWhile (\<lambda>c. c \<noteq> 0x23) (drop 1 r)) else None)"

definition fragmentOf :: "jsstring \<Rightarrow> jsstring option" where
  "fragmentOf r = (case dropWhile (\<lambda>c. c \<noteq> 0x23) r of [] \<Rightarrow> None | _ # f \<Rightarrow> Some f)"

definition tailOk :: "jsstring \<Rightarrow> bool" where
  \<comment> \<open>path, query and fragment hold only characters that the parser copies unchanged\<close>
  "tailOk r =
     (let r4 = dropWhile notQF r
      in list_all pathChar (takeWhile notQF r)
         \<and> (case queryOf r4 of None \<Rightarrow> True | Some q \<Rightarrow> list_all queryChar q)
         \<and> (case fragmentOf r4 of None \<Rightarrow> True | Some f \<Rightarrow> list_all queryChar f))"

definition parseAuthority :: "jsstring \<Rightarrow> jsstring \<Rightarrow> urlRecord option" where
  \<comment> \<open>the URL of a scheme and the input after \<open>//\<close>\<close>
  "parseAuthority scheme r2 =
     (let authority = takeWhile (\<lambda>c. c \<noteq> 0x2F \<and> notQF c) r2;
          r3 = dropWhile (\<lambda>c. c \<noteq> 0x2F \<and> notQF c) r2;
          host = map asciiLower (takeWhile (\<lambda>c. c \<noteq> 0x3A) authority);
          r4 = dropWhile notQF r3
      in case portSuffix scheme (dropWhile (\<lambda>c. c \<noteq> 0x3A) authority) of
           None \<Rightarrow> None
         | Some port \<Rightarrow>
             if validHost host \<and> tailOk r3 then
               Some \<lparr>u_scheme = scheme, u_host = host, u_port = port,
                     u_path = pathState [] (splitOn 0x2F (drop 1 (takeWhile notQF r3))),
                     u_query = queryOf r4, u_fragment = fragmentOf r4\<rparr>
             else None)"

definition parseAbsolute :: "jsstring \<Rightarrow> urlRecord option" where
  "parseAbsolute input =
     (let scheme = map asciiLower (takeWhile (\<lambda>c. c \<noteq> 0x3A) input);
          r1 = dropWhile (\<lambda>c. c \<noteq> 0x3A) input
      in if (scheme = js ''http'' \<or> scheme = js ''https'') \<and> startsWith r1 (js ''://'')
         then parseAuthority scheme (drop 3 r1) else None)"

definition parseRelative :: "urlRecord \<Rightarrow> jsstring \<Rightarrow> urlRecord option" where
  \<comment> \<open>an input without a scheme, against a base: the no scheme, relative and relative slash
      states\<close>
  "parseRelative b input =
     (if startsWith input (js ''//'') then parseAuthority (u_scheme b) (drop 2 input)
      else if \<not> tailOk input then None
      else
        (let p = takeWhile notQF input;
             r4 = dropWhile notQF input
         in Some (b\<lparr>u_path :=
                      (if p = [] then u_path b
                       else if startsWith p (js ''/'') then pathState [] (splitOn 0x2F (drop 1 p))
                       else pathState (butlast (u_path b)) (splitOn 0x2F p)),
                    u_query := (if p = [] \<and> \<not> startsWith r4 (js ''?'') then u_query b else queryOf r4),
                    u_fragment := fragmentOf r4\<rparr>)))"

definition serializePath :: "jsstring list \<Rightarrow> jsstring" where
  "serializePath segs = concat (map (\<lambda>seg. 0x2F # seg) segs)"

definition toURL :: "urlRecord \<Rightarrow> URL" where
  \<comment> \<open>the serializer and the getters of the URL class\<close>
  "toURL r =
     (let org = u_scheme r @ js ''://'' @ u_host r @ u_port r;
          pn = serializePath (u_path r)
      in \<lparr>href = org @ pn @ (case u_query r of None \<Rightarrow> [] | Some q \<Rightarrow> 0x3F # q)
                   @ (case u_fragment r of None \<Rightarrow> [] | Some f \<Rightarrow> 0x23 # f),
          origin = org, pathname = pn,
          search = (case u_query r of None \<Rightarrow> [] | Some q \<Rightarrow> if q = [] then [] else 0x3F # q),
          hash = (case u_fragment r of None \<Rightarrow> [] | Some f \<Rightarrow> if f = [] then [] else 0x23 # f)\<rparr>)"

definition simpleURL :: url_api where
  "simpleURL input base =
     (case base of
        None \<Rightarrow> map_option toURL (parseAbsolute input)
      | Some b \<Rightarrow>
          (case parseAbsolute b of
             None \<Rightarrow> None
           | Some br \<Rightarrow>
               map_option toURL (if hasScheme input then parseAbsolute input else parseRelative br input)))"

subsection \<open>The records the parser returns\<close>

text \<open>
  What holds of every record that the parser returns, and makes the serializer's output
  parse back to the same record: a lower-case scheme and host, a port as the serializer
  writes it, a path of at least one segment, its segments free of \<open>/\<close> and of dot segments,
  a query without \<open>#\<close>.
\<close>

definition plainSegment :: "jsstring \<Rightarrow> bool" where
  "plainSegment seg = (0x2F \<notin> set seg \<and> list_all pathChar seg \<and> \<not> singleDot seg \<and> \<not> doubleDot seg)"


definition canonical :: "urlRecord \<Rightarrow> bool" where
  "canonical r =
     ((u_scheme r = js ''http'' \<or> u_scheme r = js ''https'')
      \<and> validHost (u_host r) \<and> map asciiLower (u_host r) = u_host r
      \<and> portSuffix (u_scheme r) (u_port r) = Some (u_port r)
      \<and> (u_port r = [] \<or> hd (u_port r) = 0x3A)
      \<and> u_path r \<noteq> [] \<and> list_all plainSegment (u_path r)
      \<and> (case u_query r of None \<Rightarrow> True | Some q \<Rightarrow> 0x23 \<notin> set q \<and> list_all queryChar q)
      \<and> (case u_fragment r of None \<Rightarrow> True | Some f \<Rightarrow> list_all queryChar f))"



section \<open>Properties of the URI component codec\<close>

definition multiOctet :: "nat list \<Rightarrow> bool" where
  \<comment> \<open>the shape of the UTF-8 encoding of a code point above U+007F: a lead octet that
      announces the number of octets that follow\<close>
  "multiOctet bs = (case bs of [] \<Rightarrow> False | b0 # r \<Rightarrow>
      0xC0 \<le> b0 \<and> b0 < 0xF8 \<and> length r = (if b0 < 0xE0 then 1 else if b0 < 0xF0 then 2 else 3)
      \<and> (\<forall>b\<in>set bs. b < 256))"

lemma unat_of_nat16: "n < 65536 \<Longrightarrow> unat (of_nat n :: 16 word) = n"
  by (simp add: unat_of_nat)

lemma unat_hexDigit: "d < 16 \<Longrightarrow> unat (hexDigit d) = (if d < 10 then 48 + d else 55 + d)"
  unfolding hexDigit_def by (auto simp only: unat_of_nat16 split: if_splits) 

lemma hexValue_hexDigit: "d < 16 \<Longrightarrow> hexValue (hexDigit d) = Some d"
  by (simp add: hexValue_def unat_hexDigit Let_def)

lemma parseHexOctet_escape:
  "b < 256 \<Longrightarrow> parseHexOctet (hexDigit (b div 16)) (hexDigit (b mod 16)) = Some b"
proof -
  assume "b < 256"
  then have "b div 16 < 16" "b mod 16 < 16" by auto
  then show ?thesis by (simp add: parseHexOctet_def hexValue_hexDigit)
qed

lemma continuationOctets_escapes:
  "\<forall>b\<in>set bs. b < 256 \<Longrightarrow>
   continuationOctets (length bs) (concat (map percentEscape bs) @ r) = Some bs"
  by (induction bs) (simp_all add: percentEscape_def parseHexOctet_escape)

lemma length_escapes: "length (concat (map percentEscape bs)) = 3 * length bs"
  by (induction bs) (simp_all add: percentEscape_def)

lemma mod_offset: "b < m \<Longrightarrow> (k * m + b) mod m = (b::nat)"
  by simp

lemma utf8Decode2:
  assumes "2 \<le> a" "a < 32" "b < 64"
  shows "utf8Decode [0xC0 + a, 0x80 + b] = Some (a * 0x40 + b)"
proof -
  have 1: "(0xC0 + a) mod 0x20 = a" using mod_offset [of a 32 6] assms by simp
  have 2: "(0x80 + b) mod 0x40 = b" using mod_offset [of b 64 2] assms by simp
  have 3: "0x80 \<le> a * 0x40 + b" using assms by simp
  show ?thesis
    unfolding utf8Decode_def isContinuation_def Let_def list.case 1 2 using 3 assms by simp
qed

lemma utf8Decode3:
  assumes "a < 16" "b < 64" "c < 64" "0x800 \<le> a * 0x1000 + b * 0x40 + c"
    "\<not> (0xD800 \<le> a * 0x1000 + b * 0x40 + c \<and> a * 0x1000 + b * 0x40 + c \<le> 0xDFFF)"
  shows "utf8Decode [0xE0 + a, 0x80 + b, 0x80 + c] = Some (a * 0x1000 + b * 0x40 + c)"
proof -
  have 1: "(0xE0 + a) mod 0x10 = a" using mod_offset [of a 16 14] assms by simp
  have 2: "(0x80 + b) mod 0x40 = b" using mod_offset [of b 64 2] assms by simp
  have 3: "(0x80 + c) mod 0x40 = c" using mod_offset [of c 64 2] assms by simp
  show ?thesis
    unfolding utf8Decode_def isContinuation_def Let_def list.case 1 2 3 using assms by simp
qed

lemma utf8Decode4:
  assumes "a < 8" "b < 64" "c < 64" "d < 64" "0x10000 \<le> a * 0x40000 + b * 0x1000 + c * 0x40 + d"
    "a * 0x40000 + b * 0x1000 + c * 0x40 + d \<le> 0x10FFFF"
  shows "utf8Decode [0xF0 + a, 0x80 + b, 0x80 + c, 0x80 + d] = Some (a * 0x40000 + b * 0x1000 + c * 0x40 + d)"
proof -
  have 1: "(0xF0 + a) mod 8 = a" using mod_offset [of a 8 30] assms by simp
  have 2: "(0x80 + b) mod 0x40 = b" using mod_offset [of b 64 2] assms by simp
  have 3: "(0x80 + c) mod 0x40 = c" using mod_offset [of c 64 2] assms by simp
  have 4: "(0x80 + d) mod 0x40 = d" using mod_offset [of d 64 2] assms by simp
  show ?thesis
    unfolding utf8Decode_def isContinuation_def Let_def list.case 1 2 3 4 using assms by simp
qed

lemma two_level: "q div k * (k * m) + q mod k * m = q * (m::nat)"
proof -
  have "q * m = (q div k * k + q mod k) * m" by simp
  also have "\<dots> = q div k * (k * m) + q mod k * m"
    by (simp only: distrib_right mult.assoc)
  finally show ?thesis by (rule sym)
qed

lemma split3: "cp = (cp div 0x1000) * 0x1000 + ((cp div 0x40) mod 0x40) * 0x40 + cp mod (0x40::nat)"
proof -
  have "cp div 0x1000 = (cp div 0x40) div 0x40" by (simp add: div_mult2_eq)
  with two_level [of "cp div 0x40" 64 64]
  have "(cp div 0x1000) * 0x1000 + ((cp div 0x40) mod 0x40) * 0x40 = (cp div 0x40) * 0x40"
    by simp
  then show ?thesis by simp
qed

lemma split4: "cp = (cp div 0x40000) * 0x40000 + ((cp div 0x1000) mod 0x40) * 0x1000
    + ((cp div 0x40) mod 0x40) * 0x40 + cp mod (0x40::nat)"
proof -
  have "cp div 0x40000 = (cp div 0x1000) div 0x40" by (simp add: div_mult2_eq)
  with two_level [of "cp div 0x1000" 64 4096]
  have "(cp div 0x40000) * 0x40000 + ((cp div 0x1000) mod 0x40) * 0x1000 = (cp div 0x1000) * 0x1000"
    by simp
  then show ?thesis using split3 [of cp] by simp
qed


lemma utf8_two:
  assumes "0x80 \<le> cp" "cp < 0x800"
  shows "multiOctet (utf8Encode cp) \<and> utf8Decode (utf8Encode cp) = Some cp"
proof -
  define a where "a = cp div 0x40"
  define b where "b = cp mod 0x40"
  have cp: "cp = a * 0x40 + b" unfolding a_def b_def by simp
  have a: "2 \<le> a" "a < 32" using assms unfolding a_def by simp_all
  have b: "b < 64" unfolding b_def by simp
  have enc: "utf8Encode cp = [0xC0 + a, 0x80 + b]"
    using assms unfolding utf8Encode_def a_def b_def by simp
  have "utf8Decode [0xC0 + a, 0x80 + b] = Some cp"
    using utf8Decode2 [OF a b] cp by simp
  moreover have "multiOctet [0xC0 + a, 0x80 + b]"
    using a b by (simp add: multiOctet_def)
  ultimately show ?thesis unfolding enc by simp
qed

lemma utf8_three:
  assumes "0x800 \<le> cp" "cp < 0x10000" "\<not> (0xD800 \<le> cp \<and> cp \<le> 0xDFFF)"
  shows "multiOctet (utf8Encode cp) \<and> utf8Decode (utf8Encode cp) = Some cp"
proof -
  define a where "a = cp div 0x1000"
  define b where "b = (cp div 0x40) mod 0x40"
  define c where "c = cp mod 0x40"
  have cp: "cp = a * 0x1000 + b * 0x40 + c" unfolding a_def b_def c_def by (rule split3)
  have a: "a < 16" using assms unfolding a_def by simp
  have b: "b < 64" unfolding b_def by simp
  have c: "c < 64" unfolding c_def by simp
  have enc: "utf8Encode cp = [0xE0 + a, 0x80 + b, 0x80 + c]"
    using assms unfolding utf8Encode_def a_def b_def c_def by simp
  have "utf8Decode [0xE0 + a, 0x80 + b, 0x80 + c] = Some (a * 0x1000 + b * 0x40 + c)"
    using assms(1,3) unfolding cp by (intro utf8Decode3 a b c)
  moreover have "multiOctet [0xE0 + a, 0x80 + b, 0x80 + c]"
    using a b c by (simp add: multiOctet_def)
  ultimately show ?thesis unfolding enc using cp by simp
qed

lemma utf8_four:
  assumes "0x10000 \<le> cp" "cp < 0x110000"
  shows "multiOctet (utf8Encode cp) \<and> utf8Decode (utf8Encode cp) = Some cp"
proof -
  define a where "a = cp div 0x40000"
  define b where "b = (cp div 0x1000) mod 0x40"
  define c where "c = (cp div 0x40) mod 0x40"
  define d where "d = cp mod 0x40"
  have cp: "cp = a * 0x40000 + b * 0x1000 + c * 0x40 + d"
    unfolding a_def b_def c_def d_def by (rule split4)
  have a: "a < 8" using assms unfolding a_def by simp
  have b: "b < 64" unfolding b_def by simp
  have c: "c < 64" unfolding c_def by simp
  have d: "d < 64" unfolding d_def by simp
  have enc: "utf8Encode cp = [0xF0 + a, 0x80 + b, 0x80 + c, 0x80 + d]"
    using assms unfolding utf8Encode_def a_def b_def c_def d_def by simp
  have lo: "0x10000 \<le> a * 0x40000 + b * 0x1000 + c * 0x40 + d" using assms(1) unfolding cp .
  have hi: "a * 0x40000 + b * 0x1000 + c * 0x40 + d \<le> 0x10FFFF" using assms(2) unfolding cp by simp
  have "utf8Decode [0xF0 + a, 0x80 + b, 0x80 + c, 0x80 + d] = Some (a * 0x40000 + b * 0x1000 + c * 0x40 + d)"
    by (intro utf8Decode4 a b c d lo hi)
  moreover have "multiOctet [0xF0 + a, 0x80 + b, 0x80 + c, 0x80 + d]"
    using a b c d by (simp add: multiOctet_def)
  ultimately show ?thesis unfolding enc using cp by simp
qed


lemma decodeEscape_multi:
  assumes "multiOctet bs" "utf8Decode bs = Some v"
  shows "decodeEscape (tl (concat (map percentEscape bs)) @ r) = Inr (utf16EncodeCodePoint v, 3 * length bs - 1)"
proof -
  from assms(1) obtain b0 rest where bs: "bs = b0 # rest"
    and b0: "0xC0 \<le> b0" "b0 < 0xF8"
    and len: "length rest = (if b0 < 0xE0 then 1 else if b0 < 0xF0 then 2 else 3)"
    and oct: "b0 < 256" "\<forall>b\<in>set rest. b < 256"
    by (auto simp: multiOctet_def split: list.splits)
  have n: "(if b0 < 0xE0 then 2 else if b0 < 0xF0 then 3 else 4) - 1 = length rest"
    using len by simp
  have shape: "tl (concat (map percentEscape bs)) @ r
      = hexDigit (b0 div 16) # hexDigit (b0 mod 16) # (concat (map percentEscape rest) @ r)"
    by (simp add: bs percentEscape_def)
  show ?thesis
    unfolding shape decodeEscape_def list.case parseHexOctet_escape [OF oct(1)] option.case Let_def n
      continuationOctets_escapes [OF oct(2)]
    using b0 assms(2) by (simp add: bs)
qed

lemma decode_escaped_multi:
  assumes "multiOctet bs" "utf8Decode bs = Some v"
  shows "decodeURIComponent (concat (map percentEscape bs) @ r)
     = orThrow ((@) (utf16EncodeCodePoint v)) (decodeURIComponent r)"
proof -
  from assms(1) obtain b0 rest where bs: "bs = b0 # rest"
    by (auto simp: multiOctet_def split: list.splits)
  have shape: "concat (map percentEscape bs) @ r = 0x25 # (tl (concat (map percentEscape bs)) @ r)"
    by (simp add: bs percentEscape_def)
  have len: "length (tl (concat (map percentEscape bs))) = 3 * length bs - 1"
    by (simp add: length_escapes)
  have "drop (3 * length bs - 1) (tl (concat (map percentEscape bs)) @ r) = r"
    using len by simp
  then show ?thesis
    by (subst shape) (simp add: decodeEscape_multi [OF assms])
qed

lemma decode_escaped_ascii:
  assumes "b < 0x80"
  shows "decodeURIComponent (percentEscape b @ r) = orThrow ((#) (of_nat b)) (decodeURIComponent r)"
proof -
  have oct: "b < 256" using assms by simp
  have "decodeEscape (hexDigit (b div 16) # hexDigit (b mod 16) # r) = Inr ([of_nat b], 2)"
    unfolding decodeEscape_def list.case parseHexOctet_escape [OF oct] option.case
    using assms by simp
  then show ?thesis
    by (simp add: percentEscape_def orThrow_def split: sum.splits)
qed


lemma unat16_bound: "unat (c :: 16 word) < 65536"
  using unsigned_less [of c] by simp

lemma utf16_of_unit: "utf16EncodeCodePoint (unat (c :: 16 word)) = [c]"
  using unat16_bound [of c] by (simp add: utf16EncodeCodePoint_def)

lemma utf16_of_pair:
  assumes "isLeadSurrogate c" "isTrailSurrogate d"
  shows "utf16EncodeCodePoint (surrogatePairToCodePoint c d) = [c, d]"
proof -
  define h where "h = unat c - 0xD800"
  define l where "l = unat d - 0xDC00"
  have h: "unat c = h + 0xD800" and l: "unat d = l + 0xDC00" and l4: "l < 0x400"
    using assms unfolding h_def l_def isLeadSurrogate_def isTrailSurrogate_def by linarith+
  have cp: "surrogatePairToCodePoint c d - 0x10000 = h * 0x400 + l"
    unfolding surrogatePairToCodePoint_def h_def l_def by simp
  have "(h * 0x400 + l) div 0x400 = h" "(h * 0x400 + l) mod 0x400 = l"
    using l4 by simp_all
  then have "utf16EncodeCodePoint (surrogatePairToCodePoint c d)
      = [of_nat (unat c), of_nat (unat d)]"
    unfolding utf16EncodeCodePoint_def cp h l
    by (simp add: surrogatePairToCodePoint_def)
  then show ?thesis by simp
qed

lemma pair_range:
  assumes "isLeadSurrogate c" "isTrailSurrogate d"
  shows "0x10000 \<le> surrogatePairToCodePoint c d \<and> surrogatePairToCodePoint c d < 0x110000"
  using assms unfolding isLeadSurrogate_def isTrailSurrogate_def surrogatePairToCodePoint_def
  by linarith

lemma decode_escaped_codepoint:
  assumes "cp < 0x110000" "\<not> (0xD800 \<le> cp \<and> cp \<le> 0xDFFF)"
  shows "decodeURIComponent (concat (map percentEscape (utf8Encode cp)) @ r)
     = orThrow ((@) (utf16EncodeCodePoint cp)) (decodeURIComponent r)"
proof (cases "cp < 0x80")
  case True
  then have "utf16EncodeCodePoint cp = [of_nat cp]" by (simp add: utf16EncodeCodePoint_def)
  moreover have "utf8Encode cp = [cp]" using True by (simp add: utf8Encode_def)
  ultimately show ?thesis
    using decode_escaped_ascii [OF True, of r] by (simp add: orThrow_def split: sum.splits)
next
  case False
  have "multiOctet (utf8Encode cp) \<and> utf8Decode (utf8Encode cp) = Some cp"
  proof (cases "cp < 0x800")
    case True
    then show ?thesis using False by (intro utf8_two) simp_all
  next
    case F2: False
    show ?thesis
    proof (cases "cp < 0x10000")
      case True
      then show ?thesis using F2 assms(2) by (intro utf8_three) simp_all
    next
      case False
      then show ?thesis using assms(1) by (intro utf8_four) simp_all
    qed
  qed
  then show ?thesis by (simp add: decode_escaped_multi)
qed

lemma uriUnescaped_not_percent: "uriUnescaped c \<Longrightarrow> c \<noteq> 0x25"
  by (auto simp: uriUnescaped_def Let_def)

lemma decode_encode:
  "encodeURIComponent u = Inr e \<Longrightarrow> decodeURIComponent e = Inr u"
proof (induction u arbitrary: e rule: encodeURIComponent.induct)
  case 1
  then show ?case by simp
next
  case (2 c cs)
  show ?case
  proof (cases "uriUnescaped c")
    case True
    with "2.prems" obtain e' where e': "encodeURIComponent cs = Inr e'" "e = c # e'"
      by (auto simp: orThrow_def split: sum.splits)
    from "2.IH"(1) [OF True e'(1)] uriUnescaped_not_percent [OF True] show ?thesis
      by (simp add: e'(2) orThrow_def)
  next
    case notU: False
    show ?thesis
    proof (cases "isTrailSurrogate c")
      case True
      with notU "2.prems" show ?thesis by simp
    next
      case notT: False
      show ?thesis
      proof (cases "isLeadSurrogate c")
        case True
        with notU notT "2.prems" obtain d ds e' where
          cs: "cs = d # ds" and d: "isTrailSurrogate d" and
          e': "encodeURIComponent ds = Inr e'"
              "e = concat (map percentEscape (utf8Encode (surrogatePairToCodePoint c d))) @ e'"
          by (auto simp: orThrow_def split: sum.splits list.splits if_splits)
        have dec: "decodeURIComponent e' = Inr ds"
          using "2.IH"(2) [OF notU notT True cs d e'(1)] .
        have "surrogatePairToCodePoint c d < 0x110000"
          "\<not> (0xD800 \<le> surrogatePairToCodePoint c d \<and> surrogatePairToCodePoint c d \<le> 0xDFFF)"
          using pair_range [OF True d] by simp_all
        from decode_escaped_codepoint [OF this, of e'] show ?thesis
          by (simp add: e'(2) dec orThrow_def utf16_of_pair [OF True d] cs)
      next
        case False
        with notU notT "2.prems" obtain e' where
          e': "encodeURIComponent cs = Inr e'"
              "e = concat (map percentEscape (utf8Encode (unat c))) @ e'"
          by (auto simp: orThrow_def split: sum.splits)
        have dec: "decodeURIComponent e' = Inr cs"
          using "2.IH"(3) [OF notU notT False e'(1)] .
        have "unat c < 0x110000" "\<not> (0xD800 \<le> unat c \<and> unat c \<le> 0xDFFF)"
          using unat16_bound [of c] notT False
          by (auto simp: isLeadSurrogate_def isTrailSurrogate_def)
        from decode_escaped_codepoint [OF this, of e'] show ?thesis
          by (simp add: e'(2) dec orThrow_def utf16_of_unit)
      qed
    qed
  qed
qed

lemma surrogate_escaped:
  "isLeadSurrogate c \<Longrightarrow> \<not> uriUnescaped c \<and> \<not> isTrailSurrogate c"
  "isTrailSurrogate c \<Longrightarrow> \<not> uriUnescaped c"
  by (auto simp: isLeadSurrogate_def isTrailSurrogate_def uriUnescaped_def Let_def)

lemma encodeURIComponent_defined:
  "wellFormed u \<Longrightarrow> \<exists>e. encodeURIComponent u = Inr e"
proof (induction u rule: wellFormed.induct)
  case 1
  then show ?case by simp
next
  case (2 c cs)
  show ?case
  proof (cases "isLeadSurrogate c")
    case True
    with "2.prems" obtain d ds where cs: "cs = d # ds" and d: "isTrailSurrogate d"
      and wf: "wellFormed ds"
      by (auto split: list.splits)
    from "2.IH"(1) [OF True cs wf] obtain e where "encodeURIComponent ds = Inr e" ..
    then show ?thesis using True d cs surrogate_escaped(1) [OF True] by (simp add: orThrow_def)
  next
    case False
    with "2.prems" have nt: "\<not> isTrailSurrogate c" and wf: "wellFormed cs" by simp_all
    from "2.IH"(2) [OF False wf] obtain e where "encodeURIComponent cs = Inr e" ..
    then show ?thesis using False nt by (auto simp: orThrow_def)
  qed
qed

text \<open>
  C1. Codec round trip: a string without unpaired surrogates, which every valid absolute
  URL string is, has a proxied path (the route prefix followed by its percent-encoding),
  and the decode step of the dispatcher (strip the prefix, percent-decode) gives back
  exactly that string.
\<close>

theorem codec_round_trip:
  assumes "wellFormed u" and "u \<noteq> []"
  shows "\<exists>p. toProxiedPath u = Inr p \<and> decodeTarget p = Inr u"
proof -
  from encodeURIComponent_defined [OF assms(1)] obtain e where e: "encodeURIComponent u = Inr e" ..
  then have dec: "decodeURIComponent e = Inr u" by (rule decode_encode)
  have "e \<noteq> []" using dec assms(2) by auto
  then have "decodeTarget (ROUTE_PREFIX @ e) = Inr u"
    using dec by (simp add: decodeTarget_def slice_def)
  moreover have "toProxiedPath u = Inr (ROUTE_PREFIX @ e)"
    using e by (simp add: toProxiedPath_def encodeTarget_def orThrow_def)
  ultimately show ?thesis by blast
qed

theorem codec_round_trip_witness:
  "wellFormed (js ''https://example.com/a b?x=1'' @ [0xE9, 0xD83D, 0xDE00])
   \<and> js ''https://example.com/a b?x=1'' @ [0xE9, 0xD83D, 0xDE00] \<noteq> []
   \<and> (\<exists>p. toProxiedPath (js ''https://example.com/a b?x=1'' @ [0xE9, 0xD83D, 0xDE00]) = Inr p
          \<and> (decodeTarget p :: unit response + jsstring)
              = Inr (js ''https://example.com/a b?x=1'' @ [0xE9, 0xD83D, 0xDE00]))"
proof -
  have wf: "wellFormed (js ''https://example.com/a b?x=1'' @ [0xE9, 0xD83D, 0xDE00])"
    by (simp add: js_def isLeadSurrogate_def isTrailSurrogate_def)
  have ne: "js ''https://example.com/a b?x=1'' @ [0xE9, 0xD83D, 0xDE00] \<noteq> []"
    by (simp add: js_def)
  show ?thesis by (rule conjI [OF wf conjI [OF ne codec_round_trip [OF wf ne]]])
qed


section \<open>Properties of the header sanitizers\<close>

lemma delete_if_has: "(if h k \<noteq> None then h(k := None) else h) = h(k := None)"
  by auto

lemma sanitizeHeaders_plain:
  "sanitizeHeaders h False =
     h(''content-security-policy'' := None, ''content-security-policy-report-only'' := None,
       ''access-control-allow-origin'' \<mapsto> ''*'', ''access-control-allow-headers'' \<mapsto> ''*'',
       ''access-control-allow-methods'' \<mapsto> ''GET,POST,PUT,PATCH,DELETE,OPTIONS'',
       ''x-frame-options'' := None, ''x-content-type-options'' := None)"
  unfolding sanitizeHeaders_def Let_def delete_if_has by (simp only: if_False)

lemma sanitizeHeaders_html:
  "sanitizeHeaders h True =
     (let g = sanitizeHeaders h False;
          ct = (case g ''content-type'' of None \<Rightarrow> ''text/html; charset=utf-8''
                | Some v \<Rightarrow> if v = [] then ''text/html; charset=utf-8'' else v)
      in if \<not> testIgnoreCase ''text/html'' ct
         then g(''content-type'' \<mapsto> ''text/html; charset=utf-8'') else g)"
  unfolding sanitizeHeaders_def Let_def delete_if_has by (simp only: if_False if_True)

lemma sanitizeHeaders_other:
  "k \<noteq> ''content-type'' \<Longrightarrow> sanitizeHeaders h b k = sanitizeHeaders h False k"
  by (cases b) (simp_all add: sanitizeHeaders_html Let_def)


lemma sanitizeHeaders_lookup:
  "sanitizeHeaders h b ''content-security-policy'' = None"
  "sanitizeHeaders h b ''content-security-policy-report-only'' = None"
  "sanitizeHeaders h b ''x-frame-options'' = None"
  "sanitizeHeaders h b ''x-content-type-options'' = None"
  "sanitizeHeaders h b ''access-control-allow-origin'' = Some ''*''"
  "sanitizeHeaders h b ''access-control-allow-headers'' = Some ''*''"
  "sanitizeHeaders h b ''access-control-allow-methods'' = Some ''GET,POST,PUT,PATCH,DELETE,OPTIONS''"
  by (simp_all add: sanitizeHeaders_other sanitizeHeaders_plain)

lemma sanitizeHeadersInPlace_lookup:
  "sanitizeHeadersInPlace h ''content-security-policy'' = None"
  "sanitizeHeadersInPlace h ''content-security-policy-report-only'' = None"
  "sanitizeHeadersInPlace h ''x-frame-options'' = None"
  "sanitizeHeadersInPlace h ''x-content-type-options'' = h ''x-content-type-options''"
  "sanitizeHeadersInPlace h ''access-control-allow-origin'' = Some ''*''"
  "sanitizeHeadersInPlace h ''access-control-allow-headers'' = Some ''*''"
  "sanitizeHeadersInPlace h ''access-control-allow-methods'' = Some ''GET,POST,PUT,PATCH,DELETE,OPTIONS''"
  by (simp_all add: sanitizeHeadersInPlace_def Let_def)



text \<open>
  A header set that worker.js serves with \<open>x-content-type-options\<close> still in it.
\<close>

theorem sanitizer_keeps_nosniff:
  "sanitizeHeadersInPlace [''x-content-type-options'' \<mapsto> ''nosniff''] ''x-content-type-options''
     = Some ''nosniff''"
  by (simp add: sanitizeHeadersInPlace_lookup)

text \<open>
  C3. As stated the claim fails on worker.js: \<open>sanitizeHeadersInPlace\<close> does not remove
  \<open>x-content-type-options\<close>. What holds: both sanitizers remove \<open>content-security-policy\<close>,
  its report-only variant and \<open>x-frame-options\<close>, and set the three CORS headers;
  \<open>sanitizeHeaders\<close> also removes \<open>x-content-type-options\<close>, which \<open>sanitizeHeadersInPlace\<close>
  leaves as it came.
\<close>

theorem sanitizer_edits:
  "sanitizeHeaders h b ''content-security-policy'' = None
   \<and> sanitizeHeaders h b ''content-security-policy-report-only'' = None
   \<and> sanitizeHeaders h b ''x-frame-options'' = None
   \<and> sanitizeHeaders h b ''x-content-type-options'' = None
   \<and> sanitizeHeaders h b ''access-control-allow-origin'' = Some ''*''
   \<and> sanitizeHeaders h b ''access-control-allow-headers'' = Some ''*''
   \<and> sanitizeHeaders h b ''access-control-allow-methods'' = Some ''GET,POST,PUT,PATCH,DELETE,OPTIONS''
   \<and> sanitizeHeadersInPlace h ''content-security-policy'' = None
   \<and> sanitizeHeadersInPlace h ''content-security-policy-report-only'' = None
   \<and> sanitizeHeadersInPlace h ''x-frame-options'' = None
   \<and> sanitizeHeadersInPlace h ''x-content-type-options'' = h ''x-content-type-options''
   \<and> sanitizeHeadersInPlace h ''access-control-allow-origin'' = Some ''*''
   \<and> sanitizeHeadersInPlace h ''access-control-allow-headers'' = Some ''*''
   \<and> sanitizeHeadersInPlace h ''access-control-allow-methods'' = Some ''GET,POST,PUT,PATCH,DELETE,OPTIONS''"
  by (intro conjI sanitizeHeaders_lookup sanitizeHeadersInPlace_lookup)










section \<open>Properties of the URL fragment\<close>

lemma splitOn_nonempty: "splitOn sep s \<noteq> []"
  by (induction s) (auto split: list.splits)

lemma splitOn_no_sep: "sep \<notin> set s \<Longrightarrow> splitOn sep s = [s]"
  by (induction s) auto

lemma splitOn_append_sep:
  "sep \<notin> set p \<Longrightarrow> splitOn sep (p @ sep # r) = p # splitOn sep r"
  by (induction p) (auto split: list.splits simp: splitOn_nonempty)

lemma splitOn_joinWith:
  "ps \<noteq> [] \<Longrightarrow> \<forall>p\<in>set ps. sep \<notin> set p \<Longrightarrow> splitOn sep (joinWith [sep] ps) = ps"
proof (induction "[sep]" ps rule: joinWith.induct)
  case 1
  then show ?case by simp
next
  case (2 p)
  then show ?case by (simp add: splitOn_no_sep)
next
  case (3 p q ps)
  then show ?case by (simp add: splitOn_append_sep)
qed

lemma splitOn_pieces: "seg \<in> set (splitOn sep s) \<Longrightarrow> sep \<notin> set seg \<and> set seg \<subseteq> set s"
proof (induction s arbitrary: seg)
  case Nil
  then show ?case by simp
next
  case (Cons c s)
  obtain p ps where sp: "splitOn sep s = p # ps"
    using splitOn_nonempty [of sep s] by (cases "splitOn sep s") auto
  show ?case
  proof (cases "c = sep")
    case True
    with Cons.prems have "seg = [] \<or> seg \<in> set (splitOn sep s)" by simp
    then show ?thesis using Cons.IH by auto
  next
    case False
    with Cons.prems sp have "seg = c # p \<or> seg \<in> set ps" by simp
    moreover have "p \<in> set (splitOn sep s)" "set ps \<subseteq> set (splitOn sep s)"
      using sp by auto
    ultimately show ?thesis using Cons.IH [of p] Cons.IH [of seg] False by auto
  qed
qed

lemma plainSegment_Nil: "plainSegment []"
  by (simp add: plainSegment_def singleDot_def doubleDot_def js_def)

lemma pathState_plain:
  assumes "list_all plainSegment path"
    and "\<forall>seg\<in>set segs. 0x2F \<notin> set seg \<and> list_all pathChar seg"
  shows "list_all plainSegment (pathState path segs)"
  using assms
proof (induction path segs rule: pathState.induct)
  case (1 path)
  then show ?case by simp
next
  case (2 path seg)
  have b: "list_all plainSegment (butlast path)"
    using "2.prems"(1) by (auto simp: list_all_iff dest: in_set_butlastD)
  have e: "plainSegment seg" if "\<not> doubleDot seg" "\<not> singleDot seg"
    using "2.prems"(2) that by (simp add: plainSegment_def)
  show ?case
    using "2.prems"(1) b e plainSegment_Nil by simp
next
  case (3 path seg v va)
  have b: "list_all plainSegment (butlast path)"
    using "3.prems"(1) by (auto simp: list_all_iff dest: in_set_butlastD)
  have "plainSegment seg" if "\<not> doubleDot seg" "\<not> singleDot seg"
    using "3.prems"(2) that by (simp add: plainSegment_def)
  then have e: "list_all plainSegment (path @ [seg])" if "\<not> doubleDot seg" "\<not> singleDot seg"
    using "3.prems"(1) that by simp
  show ?case
    using 3 b e by simp
qed

lemma pathState_nonempty: "segs \<noteq> [] \<Longrightarrow> pathState path segs \<noteq> []"
  by (induction path segs rule: pathState.induct) simp_all



lemma pathChar_notQF: "pathChar c \<Longrightarrow> notQF c"
  by (auto simp: pathChar_def notQF_def isAsciiAlpha_def isAsciiDigit_def)

lemma queryChar_no_hash: "queryChar c \<Longrightarrow> c \<noteq> 0x23"
  by (auto simp: queryChar_def pathChar_def isAsciiAlpha_def isAsciiDigit_def)

lemma asciiLower_idem: "asciiLower (asciiLower c) = asciiLower c"
proof (cases "0x41 \<le> unat c \<and> unat c \<le> 0x5A")
  case True
  then have "unat (c + 0x20) = unat c + 0x20"
    by (simp add: unat_word_ariths)
  with True show ?thesis by (simp add: asciiLower_def)
next
  case False
  then show ?thesis by (simp add: asciiLower_def)
qed

lemma portSuffix_again:
  assumes "portSuffix scheme p = Some q"
  shows "portSuffix scheme q = Some q" and "q = [] \<or> (p \<noteq> [] \<and> hd q = hd p)"
    and "list_all (\<lambda>c. isAsciiDigit c) (drop 1 q)"
  using assms by (auto simp: portSuffix_def split: list.splits if_splits)





lemma path_segments:
  assumes "list_all pathChar p"
  shows "pathState [] (splitOn 0x2F (drop 1 p)) \<noteq> []"
    and "list_all plainSegment (pathState [] (splitOn 0x2F (drop 1 p)))"
proof -
  show "pathState [] (splitOn 0x2F (drop 1 p)) \<noteq> []"
    by (rule pathState_nonempty) (rule splitOn_nonempty)
  have "\<forall>seg\<in>set (splitOn 0x2F (drop 1 p)). 0x2F \<notin> set seg \<and> list_all pathChar seg"
  proof
    fix seg assume "seg \<in> set (splitOn 0x2F (drop 1 p))"
    then have "0x2F \<notin> set seg" "set seg \<subseteq> set (drop 1 p)"
      using splitOn_pieces by blast+
    moreover have "set (drop 1 p) \<subseteq> set p" by (rule set_drop_subset)
    ultimately show "0x2F \<notin> set seg \<and> list_all pathChar seg"
      using assms by (auto simp: list_all_iff)
  qed
  then show "list_all plainSegment (pathState [] (splitOn 0x2F (drop 1 p)))"
    by (intro pathState_plain) simp_all
qed

lemma queryOf_no_hash: "queryOf r = Some q \<Longrightarrow> 0x23 \<notin> set q"
  by (auto simp: queryOf_def split: if_splits dest: set_takeWhileD)

lemma tail_canonical:
  assumes "tailOk r"
  shows "case queryOf (dropWhile notQF r) of None \<Rightarrow> True | Some q \<Rightarrow> 0x23 \<notin> set q \<and> list_all queryChar q"
    and "case fragmentOf (dropWhile notQF r) of None \<Rightarrow> True | Some f \<Rightarrow> list_all queryChar f"
    and "list_all pathChar (takeWhile notQF r)"
  using assms queryOf_no_hash [of "dropWhile notQF r"]
  by (auto simp: tailOk_def Let_def split: option.splits)

lemma parseAuthority_canonical:
  assumes "parseAuthority scheme r2 = Some r" and "scheme = js ''http'' \<or> scheme = js ''https''"
  shows "canonical r"
proof -
  let ?sep = "\<lambda>c. c \<noteq> 0x2F \<and> notQF c"
  let ?authority = "takeWhile ?sep r2"
  let ?r3 = "dropWhile ?sep r2"
  let ?host = "map asciiLower (takeWhile (\<lambda>c. c \<noteq> 0x3A) ?authority)"
  let ?pp = "dropWhile (\<lambda>c. c \<noteq> 0x3A) ?authority"
  from assms(1) obtain port where port: "portSuffix scheme ?pp = Some port"
    unfolding parseAuthority_def Let_def by (auto split: option.splits)
  from assms(1) port have ok: "validHost ?host" "tailOk ?r3"
    unfolding parseAuthority_def Let_def by (auto split: if_splits)
  from assms(1) port ok have r: "r = \<lparr>u_scheme = scheme, u_host = ?host, u_port = port,
      u_path = pathState [] (splitOn 0x2F (drop 1 (takeWhile notQF ?r3))),
      u_query = queryOf (dropWhile notQF ?r3), u_fragment = fragmentOf (dropWhile notQF ?r3)\<rparr>"
    unfolding parseAuthority_def Let_def by simp
  have colon: "?pp \<noteq> [] \<Longrightarrow> hd ?pp = 0x3A"
    using hd_dropWhile [of "\<lambda>c. c \<noteq> 0x3A" ?authority] by simp
  have p: "port = [] \<or> hd port = 0x3A"
    using portSuffix_again(2) [OF port] colon by auto
  have h: "map asciiLower ?host = ?host"
    by (simp add: asciiLower_idem)
  show ?thesis
    unfolding canonical_def r
    using assms(2) ok(1) h portSuffix_again(1) [OF port] p
      path_segments [OF tail_canonical(3) [OF ok(2)]] tail_canonical(1,2) [OF ok(2)]
    by simp
qed

lemma parseAbsolute_canonical: "parseAbsolute s = Some r \<Longrightarrow> canonical r"
  unfolding parseAbsolute_def Let_def
  by (auto split: if_splits intro: parseAuthority_canonical)

lemma relative_path_segments:
  assumes "list_all pathChar p" and "list_all plainSegment path"
  shows "pathState (butlast path) (splitOn 0x2F p) \<noteq> []"
    and "list_all plainSegment (pathState (butlast path) (splitOn 0x2F p))"
proof -
  show "pathState (butlast path) (splitOn 0x2F p) \<noteq> []"
    by (rule pathState_nonempty) (rule splitOn_nonempty)
  have "\<forall>seg\<in>set (splitOn 0x2F p). 0x2F \<notin> set seg \<and> list_all pathChar seg"
  proof
    fix seg assume "seg \<in> set (splitOn 0x2F p)"
    then have "0x2F \<notin> set seg" "set seg \<subseteq> set p"
      using splitOn_pieces by blast+
    then show "0x2F \<notin> set seg \<and> list_all pathChar seg"
      using assms(1) by (auto simp: list_all_iff)
  qed
  moreover have "list_all plainSegment (butlast path)"
    using assms(2) by (auto simp: list_all_iff dest: in_set_butlastD)
  ultimately show "list_all plainSegment (pathState (butlast path) (splitOn 0x2F p))"
    by (intro pathState_plain) simp_all
qed

lemma parseRelative_canonical:
  assumes "canonical b" and "parseRelative b s = Some r"
  shows "canonical r"
proof (cases "startsWith s (js ''//'')")
  case True
  with assms(2) have "parseAuthority (u_scheme b) (drop 2 s) = Some r"
    by (simp add: parseRelative_def)
  moreover have "u_scheme b = js ''http'' \<or> u_scheme b = js ''https''"
    using assms(1) unfolding canonical_def by blast
  ultimately show ?thesis by (rule parseAuthority_canonical)
next
  case False
  let ?p = "takeWhile notQF s"
  let ?r4 = "dropWhile notQF s"
  from False assms(2) have ok: "tailOk s"
    by (simp add: parseRelative_def split: if_splits)
  with False assms(2) have r: "r = b\<lparr>u_path :=
        (if ?p = [] then u_path b
         else if startsWith ?p (js ''/'') then pathState [] (splitOn 0x2F (drop 1 ?p))
         else pathState (butlast (u_path b)) (splitOn 0x2F ?p)),
      u_query := (if ?p = [] \<and> \<not> startsWith ?r4 (js ''?'') then u_query b else queryOf ?r4),
      u_fragment := fragmentOf ?r4\<rparr>"
    by (simp add: parseRelative_def Let_def)
  note t = tail_canonical [OF ok]
  have b: "u_path b \<noteq> []" "list_all plainSegment (u_path b)"
    "case u_query b of None \<Rightarrow> True | Some q \<Rightarrow> 0x23 \<notin> set q \<and> list_all queryChar q"
    using assms(1) by (simp_all add: canonical_def)
  have path: "u_path r \<noteq> [] \<and> list_all plainSegment (u_path r)"
    unfolding r using b(1,2) path_segments [OF t(3)] relative_path_segments [OF t(3) b(2)]
    by simp
  have query: "case u_query r of None \<Rightarrow> True | Some q \<Rightarrow> 0x23 \<notin> set q \<and> list_all queryChar q"
    unfolding r using b(3) t(1) by simp
  have fragment: "case u_fragment r of None \<Rightarrow> True | Some f \<Rightarrow> list_all queryChar f"
    unfolding r using t(2) by simp
  have same: "u_scheme r = u_scheme b" "u_host r = u_host b" "u_port r = u_port b"
    unfolding r by simp_all
  show ?thesis
    using assms(1) path query fragment unfolding canonical_def same by simp
qed



lemma serializePath_chars:
  "list_all plainSegment segs \<Longrightarrow> list_all pathChar (serializePath segs)"
  by (induction segs) (simp_all add: serializePath_def plainSegment_def pathChar_def)








lemma simpleURL_canonical:
  assumes "simpleURL s b = Some u"
  shows "\<exists>r. canonical r \<and> u = toURL r"
proof (cases b)
  case None
  with assms show ?thesis
    using parseAbsolute_canonical by (auto simp: simpleURL_def)
next
  case (Some base)
  with assms obtain br where br: "parseAbsolute base = Some br"
    by (auto simp: simpleURL_def split: option.splits)
  with assms Some obtain r where
    r: "(if hasScheme s then parseAbsolute s else parseRelative br s) = Some r" "u = toURL r"
    by (auto simp: simpleURL_def)
  have "canonical r"
    using r(1) parseAbsolute_canonical [OF br] parseAbsolute_canonical parseRelative_canonical
    by (auto split: if_splits)
  with r(2) show ?thesis by blast
qed


lemma simpleURL_pathname:
  assumes "simpleURL s b = Some u"
  shows "0x3F \<notin> set (pathname u) \<and> 0x23 \<notin> set (pathname u)"
proof -
  from simpleURL_canonical [OF assms] obtain r where r: "canonical r" "u = toURL r" by blast
  from r(1) have "list_all plainSegment (u_path r)" unfolding canonical_def by blast
  then have "list_all pathChar (pathname u)"
    using serializePath_chars by (simp add: r(2) toURL_def Let_def)
  then have "\<forall>c\<in>set (pathname u). notQF c"
    using pathChar_notQF by (auto simp: list_all_iff)
  then show ?thesis by (auto simp: notQF_def)
qed



section \<open>Properties of the dispatchers\<close>

lemma replaceFirst_prefix: "p \<noteq> [] \<Longrightarrow> startsWith s p \<Longrightarrow> replaceFirst p [] s = drop (length p) s"
  by (cases s) (auto simp: startsWith_def)

lemma ROUTE_PREFIX_length: "length ROUTE_PREFIX = 9"
  by (simp add: ROUTE_PREFIX_def js_def)

lemma route_prefixed_paths:
  assumes "startsWith p ROUTE_PREFIX"
  shows "p \<noteq> js ''/''" and "p \<noteq> WORKER_BASE"
proof -
  have "9 \<le> length p"
    using assms ROUTE_PREFIX_length unfolding startsWith_def
    by (metis length_take min.cobounded1)
  then show "p \<noteq> js ''/''" and "p \<noteq> WORKER_BASE"
    by (auto simp: js_def WORKER_BASE_def)
qed

text \<open>
  C9. As stated the claim fails on the second variant, which answers 404 to an unmatched
  path other than \<open>/\<close>. What holds: for a request whose path does not start with the route
  prefix, worker.js and index.js answer 200 with their usage text; the second variant
  answers 200 with its usage text when the path is \<open>/\<close> (or empty) and 404 with a usage
  text otherwise; none of the three issues an outbound fetch.
\<close>

theorem unmatched_path:
  assumes "U (req_url request) None = Some url"
    and "\<not> startsWith (pathname url) ROUTE_PREFIX"
  shows "worker_fetch U transport request
           = (Respond (textResponse (js ''Boat Proxy Worker ready. Use /service/<encodedURL>'') 200), [])
       \<and> index_fetch U transport request
           = (Respond (textResponse (js ''Ultraviolet Worker running. Use /service/<url>'') 200), [])
       \<and> part0_fetch U transport request
           = (if pathname url = js ''/'' \<or> pathname url = []
              then (Respond (textResponse (js ''Ultraviolet-style Worker: use /service/<encodedURL>'') 200), [])
              else (Respond (textResponse (js ''Not found. Use /service/<encodedURL>'') 404), []))"
proof (intro conjI)
  show "worker_fetch U transport request
           = (Respond (textResponse (js ''Boat Proxy Worker ready. Use /service/<encodedURL>'') 200), [])"
    unfolding worker_fetch_def using assms by simp
  show "index_fetch U transport request
           = (Respond (textResponse (js ''Ultraviolet Worker running. Use /service/<url>'') 200), [])"
    unfolding index_fetch_def using assms by (simp add: ROUTE_PREFIX_def)
  show "part0_fetch U transport request
           = (if pathname url = js ''/'' \<or> pathname url = []
              then (Respond (textResponse (js ''Ultraviolet-style Worker: use /service/<encodedURL>'') 200), [])
              else (Respond (textResponse (js ''Not found. Use /service/<encodedURL>'') 404), []))"
    unfolding part0_fetch_def using assms by (simp add: WORKER_BASE_def)
qed

theorem unmatched_path_witness:
  "simpleURL (req_url \<lparr>req_url = js ''https://proxy.example/about'', req_method = js ''GET'',
         req_headers = Map.empty, req_body = ()\<rparr>) None
     = Some \<lparr>href = js ''https://proxy.example/about'', origin = js ''https://proxy.example'',
              pathname = js ''/about'', search = [], hash = []\<rparr>
   \<and> \<not> startsWith (js ''/about'') ROUTE_PREFIX
   \<and> worker_fetch simpleURL (\<lambda>target init. Inl [])
        \<lparr>req_url = js ''https://proxy.example/about'', req_method = js ''GET'',
         req_headers = Map.empty, req_body = ()\<rparr>
     = (Respond (textResponse (js ''Boat Proxy Worker ready. Use /service/<encodedURL>'') 200), [])
   \<and> index_fetch simpleURL (\<lambda>target init. Inl [])
        \<lparr>req_url = js ''https://proxy.example/about'', req_method = js ''GET'',
         req_headers = Map.empty, req_body = ()\<rparr>
     = (Respond (textResponse (js ''Ultraviolet Worker running. Use /service/<url>'') 200), [])"
proof -
  let ?req = "\<lparr>req_url = js ''https://proxy.example/about'', req_method = js ''GET'',
         req_headers = Map.empty, req_body = ()\<rparr>"
  let ?url = "\<lparr>href = js ''https://proxy.example/about'', origin = js ''https://proxy.example'',
              pathname = js ''/about'', search = [], hash = []\<rparr>"
  have url: "simpleURL (req_url ?req) None = Some ?url"
    by code_simp
  have np: "\<not> startsWith (js ''/about'') ROUTE_PREFIX"
    by (simp add: startsWith_def ROUTE_PREFIX_def js_def)
  then have np': "\<not> startsWith (pathname ?url) ROUTE_PREFIX" by simp
  note T = unmatched_path [where U = simpleURL and request = ?req and url = ?url
      and transport = "\<lambda>target init. Inl []", OF url np']
  from url np T show ?thesis by (intro conjI) simp_all
qed

text \<open>
  The second variant answers 404 for the unmatched path \<open>/about\<close>.
\<close>

theorem unmatched_path_not_found:
  "simpleURL (js ''https://proxy.example/about'') None
     = Some \<lparr>href = js ''https://proxy.example/about'', origin = js ''https://proxy.example'',
              pathname = js ''/about'', search = [], hash = []\<rparr>
   \<and> \<not> startsWith (js ''/about'') ROUTE_PREFIX
   \<and> part0_fetch simpleURL (\<lambda>target init. Inl [])
        \<lparr>req_url = js ''https://proxy.example/about'', req_method = js ''GET'',
         req_headers = Map.empty, req_body = ()\<rparr>
     = (Respond (textResponse (js ''Not found. Use /service/<encodedURL>'') 404), [])"
proof -
  have url: "simpleURL (js ''https://proxy.example/about'') None
     = Some \<lparr>href = js ''https://proxy.example/about'', origin = js ''https://proxy.example'',
              pathname = js ''/about'', search = [], hash = []\<rparr>"
    by code_simp
  have np: "\<not> startsWith (js ''/about'') ROUTE_PREFIX"
    by (simp add: startsWith_def ROUTE_PREFIX_def js_def)
  have "part0_fetch simpleURL (\<lambda>target init. Inl [])
        \<lparr>req_url = js ''https://proxy.example/about'', req_method = js ''GET'',
         req_headers = Map.empty, req_body = ()\<rparr>
     = (Respond (textResponse (js ''Not found. Use /service/<encodedURL>'') 404), [])"
    unfolding part0_fetch_def using url np by (simp add: WORKER_BASE_def js_def)
  with url np show ?thesis by (intro conjI)
qed

text \<open>
  C4. As stated the claim fails on index.js, whose catch branch answers 500. What holds: for
  a request whose target decodes and does not start with the proxy's origin, when the
  transport throws, worker.js and the second variant answer 502 with the plain-text body
  \<open>Upstream fetch error: \<close> followed by the text of the error, and index.js (which has no
  recursion guard) answers 500 with \<open>Error fetching target: \<close> followed by that text; the
  one outbound fetch is the failed one.
\<close>

theorem upstream_failure:
  fixes request :: "'b request"
  assumes "U (req_url request) None = Some url"
    and "startsWith (pathname url) ROUTE_PREFIX"
    and "(decodeTarget (pathname url) :: 'b response + jsstring) = Inr target"
    and "\<not> startsWith target (origin url)"
    and "transport target (makeInit request) = Inl err"
  shows "worker_fetch U transport request
           = (Respond (textResponse (js ''Upstream fetch error: '' @ err) 502), [(target, makeInit request)])
       \<and> part0_fetch U transport request
           = (Respond (textResponse (js ''Upstream fetch error: '' @ err) 502), [(target, makeInit request)])
       \<and> index_fetch U transport request
           = (Respond (textResponse (js ''Error fetching target: '' @ err) 500), [(target, makeInit request)])"
proof (intro conjI)
  show "worker_fetch U transport request
           = (Respond (textResponse (js ''Upstream fetch error: '' @ err) 502), [(target, makeInit request)])"
    unfolding worker_fetch_def Let_def using assms by simp
  show "part0_fetch U transport request
           = (Respond (textResponse (js ''Upstream fetch error: '' @ err) 502), [(target, makeInit request)])"
    unfolding part0_fetch_def Let_def using assms route_prefixed_paths [OF assms(2)] by simp
  have "decodeURIComponent (slice (pathname url) (length ROUTE_PREFIX)) = Inr target"
    using assms(3) unfolding decodeTarget_def Let_def
    by (auto split: if_splits sum.splits)
  moreover have "replaceFirst (js ''/service/'') [] (pathname url) = slice (pathname url) (length ROUTE_PREFIX)"
    using replaceFirst_prefix [of ROUTE_PREFIX "pathname url"] assms(2)
    by (simp add: ROUTE_PREFIX_def slice_def js_def)
  ultimately show "index_fetch U transport request
           = (Respond (textResponse (js ''Error fetching target: '' @ err) 500), [(target, makeInit request)])"
    unfolding index_fetch_def Let_def using assms by (simp add: ROUTE_PREFIX_def)
qed

theorem upstream_failure_witness:
  "simpleURL (req_url \<lparr>req_url = js ''https://proxy.example/service/https%3A%2F%2Fa.example%2F'',
         req_method = js ''POST'', req_headers = Map.empty, req_body = ()\<rparr>) None
     = Some \<lparr>href = js ''https://proxy.example/service/https%3A%2F%2Fa.example%2F'',
              origin = js ''https://proxy.example'',
              pathname = js ''/service/https%3A%2F%2Fa.example%2F'', search = [], hash = []\<rparr>
   \<and> startsWith (js ''/service/https%3A%2F%2Fa.example%2F'') ROUTE_PREFIX
   \<and> (decodeTarget (js ''/service/https%3A%2F%2Fa.example%2F'') :: unit response + jsstring)
       = Inr (js ''https://a.example/'')
   \<and> \<not> startsWith (js ''https://a.example/'') (js ''https://proxy.example'')
   \<and> worker_fetch simpleURL (\<lambda>target init. Inl (js ''TypeError: fetch failed''))
        \<lparr>req_url = js ''https://proxy.example/service/https%3A%2F%2Fa.example%2F'',
         req_method = js ''POST'', req_headers = Map.empty, req_body = ()\<rparr>
     = (Respond (textResponse (js ''Upstream fetch error: '' @ js ''TypeError: fetch failed'') 502),
        [(js ''https://a.example/'',
          \<lparr>init_method = js ''POST'', init_headers = Map.empty, init_body = Some ()\<rparr>)])
   \<and> part0_fetch simpleURL (\<lambda>target init. Inl (js ''TypeError: fetch failed''))
        \<lparr>req_url = js ''https://proxy.example/service/https%3A%2F%2Fa.example%2F'',
         req_method = js ''POST'', req_headers = Map.empty, req_body = ()\<rparr>
     = (Respond (textResponse (js ''Upstream fetch error: '' @ js ''TypeError: fetch failed'') 502),
        [(js ''https://a.example/'',
          \<lparr>init_method = js ''POST'', init_headers = Map.empty, init_body = Some ()\<rparr>)])"
proof -
  let ?req = "\<lparr>req_url = js ''https://proxy.example/service/https%3A%2F%2Fa.example%2F'',
         req_method = js ''POST'', req_headers = Map.empty, req_body = ()\<rparr>"
  let ?url = "\<lparr>href = js ''https://proxy.example/service/https%3A%2F%2Fa.example%2F'',
              origin = js ''https://proxy.example'',
              pathname = js ''/service/https%3A%2F%2Fa.example%2F'', search = [], hash = []\<rparr>"
  let ?tr = "\<lambda>(target :: jsstring) (init :: unit init). (Inl (js ''TypeError: fetch failed'') :: jsstring + unit upstream)"
  have url: "simpleURL (req_url ?req) None = Some ?url"
    by code_simp
  have pre: "startsWith (js ''/service/https%3A%2F%2Fa.example%2F'') ROUTE_PREFIX"
    by (simp add: startsWith_def ROUTE_PREFIX_def js_def)
  have d0: "decodeURIComponent (js ''https%3A%2F%2Fa.example%2F'') = Inr (js ''https://a.example/'')"
    by code_simp
  have sl: "slice (js ''/service/https%3A%2F%2Fa.example%2F'') (length ROUTE_PREFIX)
      = js ''https%3A%2F%2Fa.example%2F''"
    by (simp add: slice_def ROUTE_PREFIX_def js_def)
  have dec: "(decodeTarget (js ''/service/https%3A%2F%2Fa.example%2F'') :: unit response + jsstring)
       = Inr (js ''https://a.example/'')"
    unfolding decodeTarget_def Let_def sl d0 by (simp add: js_def)
  have other: "\<not> startsWith (js ''https://a.example/'') (js ''https://proxy.example'')"
    by (simp add: startsWith_def js_def)
  have init: "makeInit ?req = \<lparr>init_method = js ''POST'', init_headers = Map.empty, init_body = Some ()\<rparr>"
    by (simp add: makeInit_def js_def)
  have "?tr (js ''https://a.example/'') (makeInit ?req) = Inl (js ''TypeError: fetch failed'')"
    by simp
  note T = upstream_failure [where U = simpleURL and request = ?req and url = ?url
      and target = "js ''https://a.example/''" and transport = ?tr
      and err = "js ''TypeError: fetch failed''", simplified URL.simps, OF url pre dec other this]
  from url pre dec other T show ?thesis unfolding init by (intro conjI) simp_all
qed

text \<open>
  index.js answers 500 when the transport throws.
\<close>

theorem upstream_failure_index_500:
  "index_fetch simpleURL (\<lambda>target init. Inl (js ''TypeError: fetch failed''))
        \<lparr>req_url = js ''https://proxy.example/service/https%3A%2F%2Fa.example%2F'',
         req_method = js ''GET'', req_headers = Map.empty, req_body = ()\<rparr>
     = (Respond (textResponse (js ''Error fetching target: TypeError: fetch failed'') 500),
        [(js ''https://a.example/'',
          \<lparr>init_method = js ''GET'', init_headers = Map.empty, init_body = None\<rparr>)])"
proof -
  have url: "simpleURL (js ''https://proxy.example/service/https%3A%2F%2Fa.example%2F'') None
     = Some \<lparr>href = js ''https://proxy.example/service/https%3A%2F%2Fa.example%2F'',
              origin = js ''https://proxy.example'',
              pathname = js ''/service/https%3A%2F%2Fa.example%2F'', search = [], hash = []\<rparr>"
    by code_simp
  have dec: "decodeURIComponent (replaceFirst (js ''/service/'') [] (js ''/service/https%3A%2F%2Fa.example%2F''))
     = Inr (js ''https://a.example/'')"
    by code_simp
  have pre: "startsWith (js ''/service/https%3A%2F%2Fa.example%2F'') (js ''/service/'')"
    by (simp add: startsWith_def js_def)
  show ?thesis
    unfolding index_fetch_def Let_def using url dec pre
    by (simp add: makeInit_def) (simp add: js_def)
qed

text \<open>
  C10. The target comes from the path only: two requests whose URLs parse to the same
  \<open>pathname\<close> and \<open>origin\<close>, and that agree on method, headers and body, are dispatched
  identically, whatever their query strings and fragments; the target of every outbound
  fetch is the percent-decoding of the path after the route prefix; and a \<open>pathname\<close> (on the
  modelled fragment of the URL standard) holds no \<open>?\<close> and no \<open>#\<close>, so that a \<open>?\<close> reaches
  the target only as \<open>%3F\<close> inside the path.
\<close>

theorem target_from_path_only:
  fixes r1 r2 :: "'b request"
  assumes "U (req_url r1) None = Some u1" and "U (req_url r2) None = Some u2"
    and "pathname u1 = pathname u2" and "origin u1 = origin u2"
    and "req_method r1 = req_method r2" and "req_headers r1 = req_headers r2"
    and "req_body r1 = req_body r2"
  shows "worker_fetch U transport r1 = worker_fetch U transport r2
       \<and> part0_fetch U transport r1 = part0_fetch U transport r2
       \<and> (\<forall>c \<in> set (snd (worker_fetch U transport r1)) \<union> set (snd (part0_fetch U transport r1)).
            decodeURIComponent (slice (pathname u1) (length ROUTE_PREFIX)) = Inr (fst c))
       \<and> (\<forall>s u. simpleURL s None = Some u \<longrightarrow> 0x3F \<notin> set (pathname u) \<and> 0x23 \<notin> set (pathname u))"
proof (intro conjI)
  show "\<forall>s u. simpleURL s None = Some u \<longrightarrow> 0x3F \<notin> set (pathname u) \<and> 0x23 \<notin> set (pathname u)"
    using simpleURL_pathname by blast
  have init: "makeInit r1 = makeInit r2"
    using assms(5-7) by (simp add: makeInit_def)
  show "worker_fetch U transport r1 = worker_fetch U transport r2"
    unfolding worker_fetch_def using assms(1-4) init by (simp split: sum.splits)
  show "part0_fetch U transport r1 = part0_fetch U transport r2"
    unfolding part0_fetch_def using assms(1-4) init by (simp split: sum.splits)
  have dec: "decodeURIComponent (slice (pathname u1) (length ROUTE_PREFIX)) = Inr target"
    if "(decodeTarget (pathname u1) :: 'b response + jsstring) = Inr target" for target
    using that unfolding decodeTarget_def Let_def by (auto split: if_splits sum.splits)
  show "\<forall>c \<in> set (snd (worker_fetch U transport r1)) \<union> set (snd (part0_fetch U transport r1)).
            decodeURIComponent (slice (pathname u1) (length ROUTE_PREFIX)) = Inr (fst c)"
    unfolding worker_fetch_def part0_fetch_def Let_def using assms(1) dec
    by (auto split: if_splits sum.splits)
qed

theorem target_from_path_only_witness:
  "simpleURL (req_url \<lparr>req_url = js ''https://proxy.example/service/https%3A%2F%2Fa.example%2Fp%3Fk%3Dv?x=1'',
         req_method = js ''GET'', req_headers = Map.empty, req_body = ()\<rparr>) None
     = Some \<lparr>href = js ''https://proxy.example/service/https%3A%2F%2Fa.example%2Fp%3Fk%3Dv?x=1'',
              origin = js ''https://proxy.example'',
              pathname = js ''/service/https%3A%2F%2Fa.example%2Fp%3Fk%3Dv'',
              search = js ''?x=1'', hash = []\<rparr>
   \<and> simpleURL (req_url \<lparr>req_url = js ''https://proxy.example/service/https%3A%2F%2Fa.example%2Fp%3Fk%3Dv'',
         req_method = js ''GET'', req_headers = Map.empty, req_body = ()\<rparr>) None
     = Some \<lparr>href = js ''https://proxy.example/service/https%3A%2F%2Fa.example%2Fp%3Fk%3Dv'',
              origin = js ''https://proxy.example'',
              pathname = js ''/service/https%3A%2F%2Fa.example%2Fp%3Fk%3Dv'',
              search = [], hash = []\<rparr>
   \<and> worker_fetch simpleURL (\<lambda>target init. Inl [])
        \<lparr>req_url = js ''https://proxy.example/service/https%3A%2F%2Fa.example%2Fp%3Fk%3Dv?x=1'',
         req_method = js ''GET'', req_headers = Map.empty, req_body = ()\<rparr>
     = worker_fetch simpleURL (\<lambda>target init. Inl [])
        \<lparr>req_url = js ''https://proxy.example/service/https%3A%2F%2Fa.example%2Fp%3Fk%3Dv'',
         req_method = js ''GET'', req_headers = Map.empty, req_body = ()\<rparr>
   \<and> snd (worker_fetch simpleURL (\<lambda>target init. Inl [])
        \<lparr>req_url = js ''https://proxy.example/service/https%3A%2F%2Fa.example%2Fp%3Fk%3Dv?x=1'',
         req_method = js ''GET'', req_headers = Map.empty, req_body = ()\<rparr>)
     = [(js ''https://a.example/p?k=v'',
         \<lparr>init_method = js ''GET'', init_headers = Map.empty, init_body = None\<rparr>)]"
proof -
  let ?r1 = "\<lparr>req_url = js ''https://proxy.example/service/https%3A%2F%2Fa.example%2Fp%3Fk%3Dv?x=1'',
         req_method = js ''GET'', req_headers = Map.empty, req_body = ()\<rparr>"
  let ?r2 = "\<lparr>req_url = js ''https://proxy.example/service/https%3A%2F%2Fa.example%2Fp%3Fk%3Dv'',
         req_method = js ''GET'', req_headers = Map.empty, req_body = ()\<rparr>"
  let ?u1 = "\<lparr>href = js ''https://proxy.example/service/https%3A%2F%2Fa.example%2Fp%3Fk%3Dv?x=1'',
              origin = js ''https://proxy.example'',
              pathname = js ''/service/https%3A%2F%2Fa.example%2Fp%3Fk%3Dv'',
              search = js ''?x=1'', hash = []\<rparr>"
  let ?u2 = "\<lparr>href = js ''https://proxy.example/service/https%3A%2F%2Fa.example%2Fp%3Fk%3Dv'',
              origin = js ''https://proxy.example'',
              pathname = js ''/service/https%3A%2F%2Fa.example%2Fp%3Fk%3Dv'',
              search = [], hash = []\<rparr>"
  let ?tr = "\<lambda>(target :: jsstring) (init :: unit init). (Inl [] :: jsstring + unit upstream)"
  have u1: "simpleURL (req_url ?r1) None = Some ?u1" by code_simp
  have u2: "simpleURL (req_url ?r2) None = Some ?u2" by code_simp
  note T = target_from_path_only [where U = simpleURL and ?r1.0 = ?r1 and ?r2.0 = ?r2
      and ?u1.0 = ?u1 and ?u2.0 = ?u2 and transport = ?tr, OF u1 u2]
  have same: "worker_fetch simpleURL ?tr ?r1 = worker_fetch simpleURL ?tr ?r2"
    using T by simp
  have pre: "startsWith (js ''/service/https%3A%2F%2Fa.example%2Fp%3Fk%3Dv'') ROUTE_PREFIX"
    by (simp add: startsWith_def ROUTE_PREFIX_def js_def)
  have d0: "decodeURIComponent (js ''https%3A%2F%2Fa.example%2Fp%3Fk%3Dv'') = Inr (js ''https://a.example/p?k=v'')"
    by code_simp
  have sl: "slice (js ''/service/https%3A%2F%2Fa.example%2Fp%3Fk%3Dv'') (length ROUTE_PREFIX)
      = js ''https%3A%2F%2Fa.example%2Fp%3Fk%3Dv''"
    by (simp add: slice_def ROUTE_PREFIX_def js_def)
  have dec: "(decodeTarget (js ''/service/https%3A%2F%2Fa.example%2Fp%3Fk%3Dv'') :: unit response + jsstring)
       = Inr (js ''https://a.example/p?k=v'')"
    unfolding decodeTarget_def Let_def sl d0 by (simp add: js_def)
  have other: "\<not> startsWith (js ''https://a.example/p?k=v'') (js ''https://proxy.example'')"
    by (simp add: startsWith_def js_def)
  have init: "makeInit ?r1 = \<lparr>init_method = js ''GET'', init_headers = Map.empty, init_body = None\<rparr>"
    by (simp add: makeInit_def)
  have out: "snd (worker_fetch simpleURL ?tr ?r1)
     = [(js ''https://a.example/p?k=v'',
         \<lparr>init_method = js ''GET'', init_headers = Map.empty, init_body = None\<rparr>)]"
    unfolding worker_fetch_def Let_def init using u1 pre dec other by simp
  from u1 u2 same out show ?thesis by (intro conjI)
qed

text \<open>
  C2. The recursion guard compares strings, not origins. A target written with an
  upper-case scheme has the proxy's own origin, yet does not start with the origin string:
  both variants fetch it. A target on another host whose name merely starts with the
  proxy's host name has a different origin, yet is refused.
\<close>

theorem self_proxy_guard_bypass:
  "map_option origin (simpleURL (js ''HTTPS://proxy.example/'') None) = Some (js ''https://proxy.example'')
   \<and> map_option origin (simpleURL (js ''https://proxy.example/service/HTTPS%3A%2F%2Fproxy.example%2F'') None)
       = Some (js ''https://proxy.example'')
   \<and> snd (worker_fetch simpleURL transport
        \<lparr>req_url = js ''https://proxy.example/service/HTTPS%3A%2F%2Fproxy.example%2F'',
         req_method = js ''GET'', req_headers = Map.empty, req_body = ()\<rparr>)
       = [(js ''HTTPS://proxy.example/'',
           \<lparr>init_method = js ''GET'', init_headers = Map.empty, init_body = None\<rparr>)]
   \<and> snd (part0_fetch simpleURL transport
        \<lparr>req_url = js ''https://proxy.example/service/HTTPS%3A%2F%2Fproxy.example%2F'',
         req_method = js ''GET'', req_headers = Map.empty, req_body = ()\<rparr>)
       = [(js ''HTTPS://proxy.example/'',
           \<lparr>init_method = js ''GET'', init_headers = Map.empty, init_body = None\<rparr>)]
   \<and> map_option origin (simpleURL (js ''https://proxy.example.evil.test/'') None)
       = Some (js ''https://proxy.example.evil.test'')
   \<and> worker_fetch simpleURL transport
        \<lparr>req_url = js ''https://proxy.example/service/https%3A%2F%2Fproxy.example.evil.test%2F'',
         req_method = js ''GET'', req_headers = Map.empty, req_body = ()\<rparr>
       = (Respond (textResponse (js ''Refusing to proxy worker origin'') 400), [])"
proof -
  let ?ra = "\<lparr>req_url = js ''https://proxy.example/service/HTTPS%3A%2F%2Fproxy.example%2F'',
         req_method = js ''GET'', req_headers = Map.empty, req_body = ()\<rparr> :: unit request"
  let ?rb = "\<lparr>req_url = js ''https://proxy.example/service/https%3A%2F%2Fproxy.example.evil.test%2F'',
         req_method = js ''GET'', req_headers = Map.empty, req_body = ()\<rparr> :: unit request"
  have o1: "map_option origin (simpleURL (js ''HTTPS://proxy.example/'') None) = Some (js ''https://proxy.example'')"
    by code_simp
  have ua: "simpleURL (req_url ?ra) None
     = Some \<lparr>href = js ''https://proxy.example/service/HTTPS%3A%2F%2Fproxy.example%2F'',
              origin = js ''https://proxy.example'',
              pathname = js ''/service/HTTPS%3A%2F%2Fproxy.example%2F'', search = [], hash = []\<rparr>"
    by code_simp
  then have o2: "map_option origin (simpleURL (js ''https://proxy.example/service/HTTPS%3A%2F%2Fproxy.example%2F'') None)
       = Some (js ''https://proxy.example'')"
    by simp
  have prea: "startsWith (js ''/service/HTTPS%3A%2F%2Fproxy.example%2F'') ROUTE_PREFIX"
    by (simp add: startsWith_def ROUTE_PREFIX_def js_def)
  have d0: "decodeURIComponent (js ''HTTPS%3A%2F%2Fproxy.example%2F'') = Inr (js ''HTTPS://proxy.example/'')"
    by code_simp
  have sl: "slice (js ''/service/HTTPS%3A%2F%2Fproxy.example%2F'') (length ROUTE_PREFIX)
      = js ''HTTPS%3A%2F%2Fproxy.example%2F''"
    by (simp add: slice_def ROUTE_PREFIX_def js_def)
  have deca: "(decodeTarget (js ''/service/HTTPS%3A%2F%2Fproxy.example%2F'') :: unit response + jsstring)
       = Inr (js ''HTTPS://proxy.example/'')"
    unfolding decodeTarget_def Let_def sl d0 by (simp add: js_def)
  have passes: "\<not> startsWith (js ''HTTPS://proxy.example/'') (js ''https://proxy.example'')"
    by (simp add: startsWith_def js_def)
  have init: "makeInit ?ra = \<lparr>init_method = js ''GET'', init_headers = Map.empty, init_body = None\<rparr>"
    by (simp add: makeInit_def)
  have w: "snd (worker_fetch simpleURL transport ?ra)
       = [(js ''HTTPS://proxy.example/'',
           \<lparr>init_method = js ''GET'', init_headers = Map.empty, init_body = None\<rparr>)]"
    unfolding worker_fetch_def Let_def init using ua prea deca passes
    by (simp split: sum.split)
  have slash: "js ''/service/HTTPS%3A%2F%2Fproxy.example%2F'' \<noteq> js ''/''"
    "js ''/service/HTTPS%3A%2F%2Fproxy.example%2F'' \<noteq> WORKER_BASE"
    by (simp_all add: js_def WORKER_BASE_def)
  have p: "snd (part0_fetch simpleURL transport ?ra)
       = [(js ''HTTPS://proxy.example/'',
           \<lparr>init_method = js ''GET'', init_headers = Map.empty, init_body = None\<rparr>)]"
    unfolding part0_fetch_def Let_def init using ua prea deca passes slash
    by (simp split: sum.split)
  have o3: "map_option origin (simpleURL (js ''https://proxy.example.evil.test/'') None)
       = Some (js ''https://proxy.example.evil.test'')"
    by code_simp
  have ub: "simpleURL (req_url ?rb) None
     = Some \<lparr>href = js ''https://proxy.example/service/https%3A%2F%2Fproxy.example.evil.test%2F'',
              origin = js ''https://proxy.example'',
              pathname = js ''/service/https%3A%2F%2Fproxy.example.evil.test%2F'', search = [], hash = []\<rparr>"
    by code_simp
  have preb: "startsWith (js ''/service/https%3A%2F%2Fproxy.example.evil.test%2F'') ROUTE_PREFIX"
    by (simp add: startsWith_def ROUTE_PREFIX_def js_def)
  have d1: "decodeURIComponent (js ''https%3A%2F%2Fproxy.example.evil.test%2F'')
      = Inr (js ''https://proxy.example.evil.test/'')"
    by code_simp
  have sl1: "slice (js ''/service/https%3A%2F%2Fproxy.example.evil.test%2F'') (length ROUTE_PREFIX)
      = js ''https%3A%2F%2Fproxy.example.evil.test%2F''"
    by (simp add: slice_def ROUTE_PREFIX_def js_def)
  have decb: "(decodeTarget (js ''/service/https%3A%2F%2Fproxy.example.evil.test%2F'') :: unit response + jsstring)
       = Inr (js ''https://proxy.example.evil.test/'')"
    unfolding decodeTarget_def Let_def sl1 d1 by (simp add: js_def)
  have refused: "startsWith (js ''https://proxy.example.evil.test/'') (js ''https://proxy.example'')"
    by (simp add: startsWith_def js_def)
  have r: "worker_fetch simpleURL transport ?rb
       = (Respond (textResponse (js ''Refusing to proxy worker origin'') 400), [])"
    unfolding worker_fetch_def Let_def using ub preb decb refused by simp
  from o1 o2 w p o3 r show ?thesis by (intro conjI)
qed

section \<open>Properties of the URL resolver\<close>




section \<open>Properties of the rewriters\<close>

lemmas encode_eval =
  js_def uriUnescaped_def isLeadSurrogate_def isTrailSurrogate_def surrogatePairToCodePoint_def
  utf8Encode_def percentEscape_def hexDigit_def orThrow_def Let_def
  toProxiedPath_def encodeTarget_def ROUTE_PREFIX_def

lemma js_append: "js a @ js b = js (a @ b)"
  by (simp add: js_def)

lemma splitWhiteSpace_Cons:
  "splitWhiteSpace (c # cs) =
     (if isWhiteSpace c then
        (if cs \<noteq> [] \<and> isWhiteSpace (hd cs) then splitWhiteSpace cs else [] # splitWhiteSpace cs)
      else (case splitWhiteSpace cs of [] \<Rightarrow> [[c]] | p # ps \<Rightarrow> (c # p) # ps))"
  by (cases cs) simp_all

declare splitWhiteSpace.simps(2) [simp del]

lemma splitWhiteSpace_nonempty: "splitWhiteSpace s \<noteq> []"
  by (induction s) (simp_all add: splitWhiteSpace_Cons split: list.split)

lemma splitWhiteSpace_token:
  "list_all (\<lambda>c. \<not> isWhiteSpace c) t \<Longrightarrow> splitWhiteSpace t = [t]"
  by (induction t) (simp_all add: splitWhiteSpace_Cons)

lemma splitWhiteSpace_gap:
  assumes "g \<noteq> []" "list_all isWhiteSpace g" "r = [] \<or> \<not> isWhiteSpace (hd r)"
  shows "splitWhiteSpace (g @ r) = [] # splitWhiteSpace r"
  using assms
proof (induction g)
  case Nil
  then show ?case by simp
next
  case (Cons c g)
  show ?case
  proof (cases g)
    case Nil
    then show ?thesis using Cons.prems by (auto simp: splitWhiteSpace_Cons)
  next
    case (Cons d g')
    then show ?thesis using Cons.IH Cons.prems by (simp add: splitWhiteSpace_Cons)
  qed
qed

lemma splitWhiteSpace_token_then:
  "list_all (\<lambda>c. \<not> isWhiteSpace c) t \<Longrightarrow>
   splitWhiteSpace (t @ r) = (t @ hd (splitWhiteSpace r)) # tl (splitWhiteSpace r)"
proof (induction t)
  case Nil
  then show ?case using splitWhiteSpace_nonempty [of r] by simp
next
  case (Cons c t)
  then show ?case by (simp add: splitWhiteSpace_Cons)
qed

lemma splitWhiteSpace_two:
  assumes "list_all (\<lambda>c. \<not> isWhiteSpace c) u" "g \<noteq> []" "list_all isWhiteSpace g"
    "list_all (\<lambda>c. \<not> isWhiteSpace c) d"
  shows "splitWhiteSpace (u @ g @ d) = [u, d]"
proof -
  have "d = [] \<or> \<not> isWhiteSpace (hd d)" using assms(4) by (cases d) simp_all
  then have "splitWhiteSpace (g @ d) = [[], d]"
    using splitWhiteSpace_gap [OF assms(2,3)] splitWhiteSpace_token [OF assms(4)] by simp
  then show ?thesis using splitWhiteSpace_token_then [OF assms(1), of "g @ d"] by simp
qed

lemma dropWhile_blank:
  "list_all isWhiteSpace l \<Longrightarrow> x = [] \<or> \<not> isWhiteSpace (hd x) \<Longrightarrow> dropWhile isWhiteSpace (l @ x) = x"
  by (induction l) (auto simp: dropWhile_eq_Nil_conv intro: dropWhile_eq_self_iff [THEN iffD2])

lemma trim_padded:
  assumes "list_all isWhiteSpace l" "list_all isWhiteSpace t" "x \<noteq> []"
    "\<not> isWhiteSpace (hd x)" "\<not> isWhiteSpace (last x)"
  shows "trim (l @ x @ t) = x"
proof -
  have 1: "dropWhile isWhiteSpace (l @ x @ t) = x @ t"
    using assms(1,3,4) by (intro dropWhile_blank) (cases x, simp_all)
  have "rev (x @ t) = rev t @ rev x" by simp
  moreover have "dropWhile isWhiteSpace (rev t @ rev x) = rev x"
    using assms(2,3,5) by (intro dropWhile_blank) (simp_all add: hd_rev)
  ultimately show ?thesis by (simp add: trim_def 1)
qed


lemma comma_not_white: "\<not> isWhiteSpace 0x2C"
  by (simp add: isWhiteSpace_def)

lemma blank_no_comma: "blank s \<Longrightarrow> 0x2C \<notin> set s"
  using comma_not_white by (auto simp: blank_def list_all_iff)

lemma token_no_comma: "srcsetToken t \<Longrightarrow> 0x2C \<notin> set t"
  by (auto simp: srcsetToken_def list_all_iff)

lemma token_no_white: "srcsetToken t \<Longrightarrow> list_all (\<lambda>c. \<not> isWhiteSpace c) t"
  by (auto simp: srcsetToken_def list_all_iff)

lemma token_ends: "srcsetToken t \<Longrightarrow> t \<noteq> [] \<and> \<not> isWhiteSpace (hd t) \<and> \<not> isWhiteSpace (last t)"
  by (cases t) (auto simp: srcsetToken_def list_all_iff)

lemma candidateText_no_comma:
  assumes "candidateOk c"
  shows "0x2C \<notin> set (candidateText c)"
  using assms
  by (cases "descriptor c")
     (auto simp: candidateOk_def candidateText_def dest: blank_no_comma token_no_comma)

lemma srcsetPart_candidate:
  assumes "candidateOk c"
  shows "srcsetPart U targetOrigin (candidateText c) = rewrittenCandidate U targetOrigin c"
proof (cases "descriptor c")
  case None
  with assms have ok: "blank (lead c)" "blank (trail c)" "srcsetToken (cand_url c)"
    by (simp_all add: candidateOk_def)
  have "trim (lead c @ cand_url c @ trail c) = cand_url c"
    using ok token_ends [OF ok(3)] by (intro trim_padded) (simp_all add: blank_def)
  then have "splitWhiteSpace (trim (candidateText c)) = [cand_url c]"
    using None token_no_white [OF ok(3)] by (simp add: candidateText_def splitWhiteSpace_token)
  then show ?thesis
    using None
    by (simp add: srcsetPart_def rewrittenCandidate_def resolveUrl_def toProxiedPath_def
          encodeTarget_def orThrow_def split: sum.splits option.splits)
next
  case (Some gd)
  obtain gap d where gd: "gd = (gap, d)" by (cases gd)
  with Some assms have ok: "blank (lead c)" "blank (trail c)" "srcsetToken (cand_url c)"
    "gap \<noteq> []" "blank gap" "srcsetToken d"
    by (simp_all add: candidateOk_def)
  let ?x = "cand_url c @ gap @ d"
  have x: "?x \<noteq> []" "\<not> isWhiteSpace (hd ?x)" "\<not> isWhiteSpace (last ?x)"
    using token_ends [OF ok(3)] token_ends [OF ok(6)] by simp_all
  have "trim (lead c @ ?x @ trail c) = ?x"
    using ok(1,2) x by (intro trim_padded) (simp_all add: blank_def)
  moreover have "candidateText c = lead c @ ?x @ trail c"
    using Some gd by (simp add: candidateText_def)
  moreover have "splitWhiteSpace ?x = [cand_url c, d]"
    using ok(4,5) token_no_white [OF ok(3)] token_no_white [OF ok(6)]
    by (intro splitWhiteSpace_two) (simp_all add: blank_def)
  ultimately have "splitWhiteSpace (trim (candidateText c)) = [cand_url c, d]" by simp
  moreover have "d \<noteq> []" using ok(6) by (simp add: srcsetToken_def)
  ultimately show ?thesis
    using Some gd
    by (simp add: srcsetPart_def rewrittenCandidate_def resolveUrl_def toProxiedPath_def
          encodeTarget_def orThrow_def split: sum.splits option.splits)
qed

lemma mapThrowing_map: "mapThrowing f (map g xs) = mapThrowing (\<lambda>x. f (g x)) xs"
  by (induction xs) (simp_all split: sum.splits)

lemma mapThrowing_cong:
  "(\<And>x. x \<in> set xs \<Longrightarrow> f x = g x) \<Longrightarrow> mapThrowing f xs = mapThrowing g xs"
  by (induction xs) (simp_all split: sum.splits)

lemma joinWith_nonempty: "ps \<noteq> [] \<Longrightarrow> hd ps \<noteq> [] \<Longrightarrow> joinWith sep ps \<noteq> []"
  by (induction sep ps rule: joinWith.induct) simp_all

text \<open>
  A URL with a comma in it is cut at the comma: the value below has one candidate, whose
  URL would be rewritten to one proxied path, and the handler returns two.
\<close>

theorem srcset_url_cut_at_comma:
  "srcsetHandler simpleURL (js ''https://example.com/'') (js ''https://e.test/w_100,h_100/a.png 1x'')
     = Inr (js ''/service/https%3A%2F%2Fe.test%2Fw_100, /service/https%3A%2F%2Fexample.com%2Fh_100%2Fa.png 1x'')
   \<and> rewrittenCandidate simpleURL (js ''https://example.com/'')
        \<lparr>lead = [], cand_url = js ''https://e.test/w_100,h_100/a.png'',
         descriptor = Some (js '' '', js ''1x''), trail = []\<rparr>
     = Inr (js ''/service/https%3A%2F%2Fe.test%2Fw_100%2Ch_100%2Fa.png 1x'')
   \<and> js ''/service/https%3A%2F%2Fe.test%2Fw_100, /service/https%3A%2F%2Fexample.com%2Fh_100%2Fa.png 1x''
     \<noteq> js ''/service/https%3A%2F%2Fe.test%2Fw_100%2Ch_100%2Fa.png 1x''"
proof -
  let ?o = "js ''https://example.com/''"
  let ?a = "\<lparr>lead = [], cand_url = js ''https://e.test/w_100'', descriptor = None, trail = []\<rparr>"
  let ?b = "\<lparr>lead = [], cand_url = js ''h_100/a.png'', descriptor = Some (js '' '', js ''1x''), trail = []\<rparr>"
  have ok: "candidateOk ?a" "candidateOk ?b"
    by (simp_all add: candidateOk_def blank_def srcsetToken_def isWhiteSpace_def js_def)
  have texts: "candidateText ?a = js ''https://e.test/w_100''" "candidateText ?b = js ''h_100/a.png 1x''"
    by (simp_all add: candidateText_def js_def)
  have cut: "splitOn 0x2C (js ''https://e.test/w_100,h_100/a.png 1x'')
      = [js ''https://e.test/w_100'', js ''h_100/a.png 1x'']"
    by (simp add: js_def)
  have ua: "simpleURL (js ''https://e.test/w_100'') (Some ?o)
      = Some \<lparr>href = js ''https://e.test/w_100'', origin = js ''https://e.test'',
               pathname = js ''/w_100'', search = [], hash = []\<rparr>"
    by code_simp
  have ub: "simpleURL (js ''h_100/a.png'') (Some ?o)
      = Some \<lparr>href = js ''https://example.com/h_100/a.png'', origin = js ''https://example.com'',
               pathname = js ''/h_100/a.png'', search = [], hash = []\<rparr>"
    by code_simp
  have uc: "simpleURL (js ''https://e.test/w_100,h_100/a.png'') (Some ?o)
      = Some \<lparr>href = js ''https://e.test/w_100,h_100/a.png'', origin = js ''https://e.test'',
               pathname = js ''/w_100,h_100/a.png'', search = [], hash = []\<rparr>"
    by code_simp
  have ea: "encodeURIComponent (js ''https://e.test/w_100'') = Inr (js ''https%3A%2F%2Fe.test%2Fw_100'')"
    by (simp add: encode_eval)
  have eb: "encodeURIComponent (js ''https://example.com/h_100/a.png'')
      = Inr (js ''https%3A%2F%2Fexample.com%2Fh_100%2Fa.png'')"
    by (simp add: encode_eval)
  have ec: "encodeURIComponent (js ''https://e.test/w_100,h_100/a.png'')
      = Inr (js ''https%3A%2F%2Fe.test%2Fw_100%2Ch_100%2Fa.png'')"
    by (simp add: encode_eval)
  have ra: "rewrittenCandidate simpleURL ?o ?a = Inr (js ''/service/https%3A%2F%2Fe.test%2Fw_100'')"
    by (simp add: rewrittenCandidate_def ROUTE_PREFIX_def ua ea js_append)
  have rb: "rewrittenCandidate simpleURL ?o ?b
      = Inr (js ''/service/https%3A%2F%2Fexample.com%2Fh_100%2Fa.png 1x'')"
    by (simp add: rewrittenCandidate_def ROUTE_PREFIX_def ub eb js_append)
  have parts: "srcsetPart simpleURL ?o (js ''https://e.test/w_100'') = rewrittenCandidate simpleURL ?o ?a"
    "srcsetPart simpleURL ?o (js ''h_100/a.png 1x'') = rewrittenCandidate simpleURL ?o ?b"
    using srcsetPart_candidate [OF ok(1), of simpleURL ?o] srcsetPart_candidate [OF ok(2), of simpleURL ?o]
    unfolding texts by simp_all
  have 1: "srcsetHandler simpleURL ?o (js ''https://e.test/w_100,h_100/a.png 1x'')
     = Inr (js ''/service/https%3A%2F%2Fe.test%2Fw_100, /service/https%3A%2F%2Fexample.com%2Fh_100%2Fa.png 1x'')"
    unfolding srcsetHandler_def cut by (simp add: parts ra rb) (simp add: js_def)
  have 2: "rewrittenCandidate simpleURL ?o
        \<lparr>lead = [], cand_url = js ''https://e.test/w_100,h_100/a.png'',
         descriptor = Some (js '' '', js ''1x''), trail = []\<rparr>
     = Inr (js ''/service/https%3A%2F%2Fe.test%2Fw_100%2Ch_100%2Fa.png 1x'')"
    by (simp add: rewrittenCandidate_def ROUTE_PREFIX_def uc ec js_append)
  have 3: "js ''/service/https%3A%2F%2Fe.test%2Fw_100, /service/https%3A%2F%2Fexample.com%2Fh_100%2Fa.png 1x''
     \<noteq> js ''/service/https%3A%2F%2Fe.test%2Fw_100%2Ch_100%2Fa.png 1x''"
    by (simp add: js_def)
  from 1 2 3 show ?thesis by (intro conjI)
qed

text \<open>
  C7. As stated the claim fails on a URL that holds a comma, since the handler cuts the
  value at every comma. What holds: for a \<open>srcset\<close> value made of comma-separated candidates
  whose URLs and descriptors hold no comma, the handler writes back the candidates in order,
  joined by a comma and a space, each one the route prefix and the percent-encoding of its
  URL as the URL class resolves it against the target origin, followed by a space and its
  descriptor, unchanged, when it has one. (The handler throws when a resolved URL cannot be
  percent-encoded; the right-hand side throws in the same case.)
\<close>

theorem srcset_rewriting:
  assumes "cs \<noteq> []" and "list_all candidateOk cs"
  shows "srcsetHandler U targetOrigin (joinWith (js '','') (map candidateText cs))
       = (case mapThrowing (rewrittenCandidate U targetOrigin) cs of
            Inl e \<Rightarrow> Inl e
          | Inr parts \<Rightarrow> Inr (joinWith (js '', '') parts))"
proof -
  let ?texts = "map candidateText cs"
  have comma: "js '','' = [0x2C]" by (simp add: js_def)
  have "candidateText (hd cs) \<noteq> []"
    using assms by (cases cs) (auto simp: candidateOk_def candidateText_def srcsetToken_def)
  then have ne: "joinWith (js '','') ?texts \<noteq> []"
    using assms(1) by (intro joinWith_nonempty) (simp_all add: hd_map)
  have "\<forall>p\<in>set ?texts. 0x2C \<notin> set p"
    using assms(2) candidateText_no_comma by (auto simp: list_all_iff)
  then have split: "splitOn 0x2C (joinWith (js '','') ?texts) = ?texts"
    unfolding comma using assms(1) by (intro splitOn_joinWith) simp_all
  have "mapThrowing (srcsetPart U targetOrigin) ?texts
      = mapThrowing (rewrittenCandidate U targetOrigin) cs"
    unfolding mapThrowing_map
    using assms(2) by (intro mapThrowing_cong srcsetPart_candidate) (simp add: list_all_iff)
  then show ?thesis
    using ne by (simp add: srcsetHandler_def split)
qed

theorem srcset_rewriting_witness:
  "[\<lparr>lead = [], cand_url = js ''a.png'', descriptor = Some (js '' '', js ''1x''), trail = []\<rparr>,
    \<lparr>lead = js '' '', cand_url = js ''b.png'', descriptor = Some (js '' '', js ''2x''), trail = []\<rparr>]
     \<noteq> []
   \<and> list_all candidateOk
       [\<lparr>lead = [], cand_url = js ''a.png'', descriptor = Some (js '' '', js ''1x''), trail = []\<rparr>,
        \<lparr>lead = js '' '', cand_url = js ''b.png'', descriptor = Some (js '' '', js ''2x''), trail = []\<rparr>]
   \<and> srcsetHandler simpleURL (js ''https://example.com/'') (js ''a.png 1x, b.png 2x'')
     = Inr (js ''/service/https%3A%2F%2Fexample.com%2Fa.png 1x, /service/https%3A%2F%2Fexample.com%2Fb.png 2x'')"
proof -
  let ?a = "\<lparr>lead = [], cand_url = js ''a.png'', descriptor = Some (js '' '', js ''1x''), trail = []\<rparr>"
  let ?b = "\<lparr>lead = js '' '', cand_url = js ''b.png'', descriptor = Some (js '' '', js ''2x''), trail = []\<rparr>"
  let ?o = "js ''https://example.com/''"
  have ok: "list_all candidateOk [?a, ?b]"
    by (simp add: candidateOk_def blank_def srcsetToken_def isWhiteSpace_def js_def)
  have joined: "joinWith (js '','') (map candidateText [?a, ?b]) = js ''a.png 1x, b.png 2x''"
    by (simp add: candidateText_def js_def)
  have ua: "simpleURL (js ''a.png'') (Some ?o)
      = Some \<lparr>href = js ''https://example.com/a.png'', origin = js ''https://example.com'',
               pathname = js ''/a.png'', search = [], hash = []\<rparr>"
    by code_simp
  have ub: "simpleURL (js ''b.png'') (Some ?o)
      = Some \<lparr>href = js ''https://example.com/b.png'', origin = js ''https://example.com'',
               pathname = js ''/b.png'', search = [], hash = []\<rparr>"
    by code_simp
  have ea: "encodeURIComponent (js ''https://example.com/a.png'') = Inr (js ''https%3A%2F%2Fexample.com%2Fa.png'')"
    by (simp add: encode_eval)
  have eb: "encodeURIComponent (js ''https://example.com/b.png'') = Inr (js ''https%3A%2F%2Fexample.com%2Fb.png'')"
    by (simp add: encode_eval)
  have out: "mapThrowing (rewrittenCandidate simpleURL ?o) [?a, ?b]
      = Inr [js ''/service/https%3A%2F%2Fexample.com%2Fa.png 1x'',
             js ''/service/https%3A%2F%2Fexample.com%2Fb.png 2x'']"
    by (simp add: rewrittenCandidate_def ROUTE_PREFIX_def ua ub ea eb js_append)
  have "srcsetHandler simpleURL ?o (js ''a.png 1x, b.png 2x'')
     = Inr (js ''/service/https%3A%2F%2Fexample.com%2Fa.png 1x, /service/https%3A%2F%2Fexample.com%2Fb.png 2x'')"
    using srcset_rewriting [where cs = "[?a, ?b]" and U = simpleURL and targetOrigin = ?o, OF _ ok]
    unfolding joined out by (simp add: js_def)
  with ok show ?thesis by simp
qed





































end
